theory Spec2Isabelle
  imports Main
begin

section \<open>Data model\<close>

text \<open>
  Instants (Go \<open>time.Time\<close>) are integers: nanoseconds since the Unix epoch. A
  \<open>time.Duration\<close> is an integer number of nanoseconds as well.
\<close>

type_synonym time = int

definition Minute :: int where
  "Minute = 60 * 1000000000"

text \<open>The zero value of \<open>time.Time\<close> (January 1, year 1, 00:00 UTC).\<close>

definition zeroTime :: time where
  "zeroTime = - 62135596800 * 1000000000"

text \<open>
  Go \<open>error\<close> values that reach the service from its collaborators: the driver's
  \<open>mongo.ErrNoDocuments\<close>, any other error of a collaborator (carrying its text), and an
  error wrapped by \<open>fmt.Errorf(".. %w", err)\<close>.
\<close>

datatype go_error = ErrNoDocuments | OtherError string | Errorf string go_error

text \<open>\<open>common.AppError\<close> and the two constructors the OTP service uses.\<close>

record AppError =
  Code :: int
  Message :: string
  Details :: string
  StatusCode :: int

definition NewValidationError :: "string \<Rightarrow> AppError" where
  "NewValidationError message =
     \<lparr>Code = 1001, Message = ''Validation Error'', Details = message, StatusCode = 400\<rparr>"

definition NewInternalError :: "string \<Rightarrow> AppError" where
  "NewInternalError message =
     \<lparr>Code = 1004, Message = ''Internal Server Error'', Details = message, StatusCode = 500\<rparr>"

definition NewServiceUnavailableError :: "string \<Rightarrow> AppError" where
  "NewServiceUnavailableError service =
     \<lparr>Code = 1005, Message = ''Service Unavailable'',
      Details = service @ '' service is currently unavailable'', StatusCode = 503\<rparr>"

text \<open>
  \<open>models.OTP\<close>. The \<open>ID\<close> field (the driver's object id) is left out: no function
  modelled here reads it.
\<close>

record OTP =
  Phone :: string
  Code :: string
  ExpiresAt :: time
  Attempts :: int
  MaxAttempts :: int
  CreatedAt :: time
  UpdatedAt :: time

record OTPRequest =
  PhoneNumber :: string

record OTPResponse =
  Success :: bool
  Message :: string
  OTP :: string
  ExpiresAt :: time

record VerifyOTPRequest =
  PhoneNumber :: string
  OTP :: string

record VerifyOTPResponse =
  Success :: bool
  Message :: string
  Valid :: bool

section \<open>The OTP collection (repository/mongo/mongo.go)\<close>

text \<open>
  The collection \<open>otps\<close> carries a unique index on \<open>phone\<close>, so it is a partial map
  from phone numbers to records. Every repository method is one call of the driver; the
  first argument of each operation below is the error of that driver call, \<open>None\<close> when
  the call goes through. A failed call leaves the collection as it was.
\<close>

type_synonym otps = "string \<rightharpoonup> OTP"

definition Create :: "go_error option \<Rightarrow> time \<Rightarrow> time \<Rightarrow> otps \<Rightarrow> OTP \<Rightarrow> go_error option \<times> otps" where
  "Create fault now1 now2 coll otp =
     (let otp' = otp\<lparr>CreatedAt := now1, UpdatedAt := now2\<rparr> in
      case fault of
        Some err \<Rightarrow> (Some err, coll)
      | None \<Rightarrow>
          (if coll (Phone otp') \<noteq> None
           then (Some (OtherError ''E11000 duplicate key error''), coll)
           else (None, coll(Phone otp' \<mapsto> otp'))))"

definition FindByPhone :: "go_error option \<Rightarrow> otps \<Rightarrow> string \<Rightarrow> go_error + OTP" where
  "FindByPhone fault coll phone =
     (case fault of
        Some err \<Rightarrow> Inl err
      | None \<Rightarrow> (case coll phone of None \<Rightarrow> Inl ErrNoDocuments | Some otp \<Rightarrow> Inr otp))"

definition DeleteByPhone :: "go_error option \<Rightarrow> otps \<Rightarrow> string \<Rightarrow> go_error option \<times> otps" where
  "DeleteByPhone fault coll phone =
     (case fault of
        Some err \<Rightarrow> (Some err, coll)
      | None \<Rightarrow> (None, coll(phone := None)))"

definition IncrementAttempts :: "go_error option \<Rightarrow> time \<Rightarrow> otps \<Rightarrow> string \<Rightarrow> go_error option \<times> otps" where
  "IncrementAttempts fault now coll phone =
     (case fault of
        Some err \<Rightarrow> (Some err, coll)
      | None \<Rightarrow>
          (case coll phone of
             None \<Rightarrow> (None, coll)
           | Some otp \<Rightarrow> (None, coll(phone \<mapsto> otp\<lparr>Attempts := Attempts otp + 1, UpdatedAt := now\<rparr>))))"

section \<open>VerifyOTP (sms\_service/service.go)\<close>

text \<open>
  What one call of \<open>VerifyOTP\<close> takes from its environment: the error of each driver
  call it may make and the clock readings. A call makes at most one \<open>DeleteByPhone\<close>.
\<close>

record verify_env =
  find_fault :: "go_error option"
  verify_now :: time
  delete_fault :: "go_error option"
  incr_fault :: "go_error option"
  incr_now :: time

definition notFoundResponse :: VerifyOTPResponse where
  "notFoundResponse =
     \<lparr>Success = False, Message = ''OTP not found or expired. Please request a new OTP.'', Valid = False\<rparr>"

definition expiredResponse :: VerifyOTPResponse where
  "expiredResponse =
     \<lparr>Success = False, Message = ''OTP expired. Please request a new OTP.'', Valid = False\<rparr>"

definition maxAttemptsResponse :: VerifyOTPResponse where
  "maxAttemptsResponse =
     \<lparr>Success = False,
      Message = ''Maximum verification attempts reached. Please request a new OTP.'', Valid = False\<rparr>"

definition verifiedResponse :: VerifyOTPResponse where
  "verifiedResponse = \<lparr>Success = True, Message = ''OTP verified successfully'', Valid = True\<rparr>"

definition invalidResponse :: VerifyOTPResponse where
  "invalidResponse = \<lparr>Success = False, Message = ''Invalid OTP. Please try again.'', Valid = False\<rparr>"

text \<open>
  The result is the pair the Go function returns (\<open>Inl\<close> a non-nil error, \<open>Inr\<close> the
  response with a nil error) together with the collection after the call. The repository's
  \<open>FindByPhone\<close> returns a record or an error, never neither, so the test
  \<open>storedOTP == nil\<close> adds no branch to the one on the error.
\<close>

definition VerifyOTP ::
  "verify_env \<Rightarrow> otps \<Rightarrow> VerifyOTPRequest \<Rightarrow> (AppError + VerifyOTPResponse) \<times> otps" where
  "VerifyOTP env coll req =
     (case FindByPhone (find_fault env) coll (VerifyOTPRequest.PhoneNumber req) of
        Inl err \<Rightarrow> (Inr notFoundResponse, coll)
      | Inr storedOTP \<Rightarrow>
          if verify_now env > OTP.ExpiresAt storedOTP then
            (Inr expiredResponse,
             snd (DeleteByPhone (delete_fault env) coll (VerifyOTPRequest.PhoneNumber req)))
          else if Attempts storedOTP \<ge> MaxAttempts storedOTP then
            (Inr maxAttemptsResponse, coll)
          else
            (let coll1 = snd (IncrementAttempts (incr_fault env) (incr_now env) coll
                                (VerifyOTPRequest.PhoneNumber req)) in
             if OTP.Code storedOTP = VerifyOTPRequest.OTP req then
               (Inr verifiedResponse,
                snd (DeleteByPhone (delete_fault env) coll1 (VerifyOTPRequest.PhoneNumber req)))
             else
               (Inr invalidResponse, coll1)))"

text \<open>A run of successive \<open>VerifyOTP\<close> calls, each on the collection the one before left.\<close>

fun VerifyOTP_calls ::
  "otps \<Rightarrow> (verify_env \<times> VerifyOTPRequest) list \<Rightarrow> (AppError + VerifyOTPResponse) list \<times> otps" where
  "VerifyOTP_calls coll [] = ([], coll)"
| "VerifyOTP_calls coll ((env, req) # rest) =
     (let (res, coll1) = VerifyOTP env coll req;
          (ress, coll2) = VerifyOTP_calls coll1 rest
      in (res # ress, coll2))"

section \<open>generateOTP\<close>

text \<open>\<open>fmt.Sprintf("%d", n)\<close>: the decimal numeral of an integer.\<close>

fun decimal :: "nat \<Rightarrow> string" where
  "decimal n =
     (if n < 10 then [''0123456789'' ! n]
      else decimal (n div 10) @ [''0123456789'' ! (n mod 10)])"

declare decimal.simps [simp del]

definition Sprintf_d :: "int \<Rightarrow> string" where
  "Sprintf_d i = (if i < 0 then CHR ''-'' # decimal (nat (- i)) else decimal (nat i))"

text \<open>
  The random source is the sequence of results of the successive calls
  \<open>rand.Int(rand.Reader, big.NewInt(10))\<close>: \<open>reader i\<close> is what the call of iteration
  \<open>i\<close> returns, an error or the number drawn. The loop is the \<open>for\<close> loop of
  \<open>generateOTP\<close>, started at \<open>i = 0\<close> with the empty string.
\<close>

function generateOTP_loop :: "(nat \<Rightarrow> go_error + int) \<Rightarrow> nat \<Rightarrow> string \<Rightarrow> go_error + string" where
  "generateOTP_loop reader i otp =
     (if i < 6 then
        (case reader i of
           Inl err \<Rightarrow> Inl (Errorf ''failed to generate random number: '' err)
         | Inr num \<Rightarrow> generateOTP_loop reader (i + 1) (otp @ Sprintf_d num))
      else Inr otp)"
  by pat_completeness auto
termination
  by (relation "measure (\<lambda>(reader, i, otp). 6 - i)") auto

declare generateOTP_loop.simps [simp del]

definition generateOTP :: "(nat \<Rightarrow> go_error + int) \<Rightarrow> go_error + string" where
  "generateOTP reader = generateOTP_loop reader 0 []"

section \<open>SendOTP (sms\_service/service.go)\<close>

text \<open>
  What one call of \<open>SendOTP\<close> takes from its environment: the error of each driver call,
  the clock readings (\<open>time.Until\<close>, \<open>time.Now\<close> for the expiry, and the two readings
  inside \<open>Create\<close>), the random source, and the error of the SMS client's \<open>SendOTP\<close>.
\<close>

record send_env =
  lookup_fault :: "go_error option"
  until_now :: time
  resend_delete_fault :: "go_error option"
  reader :: "nat \<Rightarrow> go_error + int"
  expiry_now :: time
  create_fault :: "go_error option"
  created_now :: time
  updated_now :: time
  dispatch_err :: "go_error option"
  rollback_fault :: "go_error option"

text \<open>
  The result is the returned pair, the collection after the call, and the calls made to
  the SMS client's \<open>SendOTP\<close> (phone, code), in order.
\<close>

type_synonym send_result = "(AppError + OTPResponse) \<times> otps \<times> (string \<times> string) list"

text \<open>From "Generate 6-digit OTP" to the end of \<open>SendOTP\<close>.\<close>

definition SendOTP_issue :: "send_env \<Rightarrow> otps \<Rightarrow> string \<Rightarrow> send_result" where
  "SendOTP_issue env coll phone =
     (case generateOTP (reader env) of
        Inl err \<Rightarrow> (Inl (NewInternalError ''Failed to generate OTP''), coll, [])
      | Inr otp \<Rightarrow>
          (let expiry = expiry_now env + 5 * Minute;
               otpRecord = \<lparr>Phone = phone, OTP.Code = otp, OTP.ExpiresAt = expiry, Attempts = 0,
                            MaxAttempts = 3, CreatedAt = zeroTime, UpdatedAt = zeroTime\<rparr>
           in case Create (create_fault env) (created_now env) (updated_now env) coll otpRecord of
                (Some err, coll1) \<Rightarrow> (Inl (NewInternalError ''Failed to store OTP''), coll1, [])
              | (None, coll1) \<Rightarrow>
                  (case dispatch_err env of
                     Some err \<Rightarrow>
                       (Inl (NewServiceUnavailableError ''SMS provider''),
                        snd (DeleteByPhone (rollback_fault env) coll1 phone),
                        [(phone, otp)])
                   | None \<Rightarrow>
                       (Inr \<lparr>OTPResponse.Success = True,
                             OTPResponse.Message = ''OTP sent successfully'',
                             OTPResponse.OTP = otp, OTPResponse.ExpiresAt = expiry\<rparr>,
                        coll1, [(phone, otp)]))))"

definition SendOTP :: "send_env \<Rightarrow> otps \<Rightarrow> OTPRequest \<Rightarrow> send_result" where
  "SendOTP env coll req =
     (case FindByPhone (lookup_fault env) coll (OTPRequest.PhoneNumber req) of
        Inr existingOTP \<Rightarrow>
          (let timeUntilExpiry = OTP.ExpiresAt existingOTP - until_now env in
           if timeUntilExpiry > 2 * Minute then
             (Inr \<lparr>OTPResponse.Success = False,
                   OTPResponse.Message =
                     ''OTP already sent. Please wait before requesting a new one.'',
                   OTPResponse.OTP = [],
                   OTPResponse.ExpiresAt = OTP.ExpiresAt existingOTP\<rparr>,
              coll, [])
           else
             SendOTP_issue env
               (snd (DeleteByPhone (resend_delete_fault env) coll (OTPRequest.PhoneNumber req)))
               (OTPRequest.PhoneNumber req))
      | Inl err \<Rightarrow> SendOTP_issue env coll (OTPRequest.PhoneNumber req))"

section \<open>The send-otp endpoint (sms\_service/transport/endpoints.go)\<close>

definition isValidPhoneNumber :: "string \<Rightarrow> bool" where
  "isValidPhoneNumber phone =
     (if length phone < 10 \<or> phone ! 0 \<noteq> CHR ''+'' then False
      else list_all (\<lambda>c. \<not> ((of_char c :: nat) < of_char CHR ''0'' \<or>
                             (of_char c :: nat) > of_char CHR ''9'')) (drop 1 phone))"

text \<open>What the handler writes with \<open>c.JSON\<close>: the status and the value serialised.\<close>

datatype http_body = AppErrorBody AppError | OTPResponseBody OTPResponse | ErrorText string

text \<open>
  The handler of \<open>makeSendOTPEndpoint\<close>. \<open>bound\<close> is the outcome of
  \<open>c.ShouldBindJSON(&req)\<close> (\<open>Inl\<close> the text of the binding error); \<open>svc\<close> is the
  \<open>SendOTP\<close> method of the service, \<open>None\<close> when the type assertion on \<open>svc\<close> fails.
  The service's errors are \<open>*common.AppError\<close> values, so the conversion of any other
  error has no branch here.
\<close>

definition makeSendOTPEndpoint ::
  "(otps \<Rightarrow> OTPRequest \<Rightarrow> send_result) option \<Rightarrow> string + OTPRequest \<Rightarrow> otps \<Rightarrow>
   (int \<times> http_body) \<times> otps \<times> (string \<times> string) list" where
  "makeSendOTPEndpoint svc bound coll =
     (case bound of
        Inl err \<Rightarrow>
          ((400, AppErrorBody (NewValidationError (''Invalid request format: '' @ err))), coll, [])
      | Inr req \<Rightarrow>
          if \<not> isValidPhoneNumber (OTPRequest.PhoneNumber req) then
            ((400, AppErrorBody (NewValidationError ''Invalid phone number format'')), coll, [])
          else
            (case svc of
               None \<Rightarrow> ((500, ErrorText ''Service not available''), coll, [])
             | Some sendOTP \<Rightarrow>
                 (case sendOTP coll req of
                    (Inl appErr, coll', sent) \<Rightarrow>
                      ((StatusCode appErr, AppErrorBody appErr), coll', sent)
                  | (Inr response, coll', sent) \<Rightarrow>
                      ((200, OTPResponseBody
                               (if OTPResponse.Success response
                                then response\<lparr>OTPResponse.OTP := []\<rparr> else response)),
                       coll', sent))))"

section \<open>RateLimitMiddleware (sms\_service/transport/http.go)\<close>

text \<open>
  What the middleware reads of the request: the route parameter \<open>phone\<close>, the method, and
  the \<open>phone_number\<close> of the JSON body (\<open>None\<close> when the body does not bind).
\<close>

record throttle_request =
  param_phone :: string
  request_method :: string
  body_phone_number :: "string option"

definition throttle_phone :: "throttle_request \<Rightarrow> string" where
  "throttle_phone c =
     (if param_phone c = [] then
        (if request_method c = ''POST'' then
           (case body_phone_number c of Some p \<Rightarrow> p | None \<Rightarrow> [])
         else [])
      else param_phone c)"

definition ErrCodeRateLimit :: int where
  "ErrCodeRateLimit = 1009"

text \<open>\<open>Next\<close>: the request goes on to its handler. \<open>Abort\<close>: status and error code written.\<close>

datatype throttle_outcome = Next | Abort int int

text \<open>
  \<open>requests\<close> is the map the closure owns (empty when the middleware is built), \<open>now\<close>
  is \<open>time.Now().Unix()\<close>, in seconds.
\<close>

definition RateLimitMiddleware ::
  "(string \<rightharpoonup> int list) \<Rightarrow> int \<Rightarrow> throttle_request \<Rightarrow> throttle_outcome \<times> (string \<rightharpoonup> int list)" where
  "RateLimitMiddleware requests now c =
     (let phone = throttle_phone c in
      if phone \<noteq> [] then
        (let window = now - 60 in
         case requests phone of
           Some timestamps \<Rightarrow>
             (let valid = filter (\<lambda>ts. ts > window) timestamps;
                  requests1 = requests(phone \<mapsto> valid)
              in if length valid \<ge> 5 then (Abort 429 ErrCodeRateLimit, requests1)
                 else (Next, requests1(phone \<mapsto> valid @ [now])))
         | None \<Rightarrow> (Next, requests(phone \<mapsto> [now])))
      else (Next, requests))"

text \<open>
  A run of the middleware over successive requests (arrival time, request): the outcome
  of each, and the arrival times of the requests of one phone that were let through.
\<close>

fun throttle_run ::
  "(string \<rightharpoonup> int list) \<Rightarrow> (int \<times> throttle_request) list \<Rightarrow> throttle_outcome list" where
  "throttle_run requests [] = []"
| "throttle_run requests ((now, c) # rest) =
     fst (RateLimitMiddleware requests now c) #
     throttle_run (snd (RateLimitMiddleware requests now c)) rest"

fun admitted ::
  "string \<Rightarrow> (string \<rightharpoonup> int list) \<Rightarrow> (int \<times> throttle_request) list \<Rightarrow> int list" where
  "admitted phone requests [] = []"
| "admitted phone requests ((now, c) # rest) =
     (if throttle_phone c = phone \<and> fst (RateLimitMiddleware requests now c) = Next
      then [now] else []) @
     admitted phone (snd (RateLimitMiddleware requests now c)) rest"

section \<open>Example inputs\<close>

definition ex_phone :: string where
  "ex_phone = ''+15551230000''"

definition ex_record :: OTP where
  "ex_record = \<lparr>Phone = ex_phone, OTP.Code = ''123456'', OTP.ExpiresAt = 5 * Minute, Attempts = 0,
                 MaxAttempts = 3, CreatedAt = 0, UpdatedAt = 0\<rparr>"

definition ex_coll :: otps where
  "ex_coll = [ex_phone \<mapsto> ex_record]"

text \<open>A \<open>VerifyOTP\<close> call at instant \<open>t\<close> against a collection whose calls all succeed.\<close>

definition ex_verify_env :: "time \<Rightarrow> verify_env" where
  "ex_verify_env t =
     \<lparr>find_fault = None, verify_now = t, delete_fault = None, incr_fault = None, incr_now = t\<rparr>"

definition ex_right :: VerifyOTPRequest where
  "ex_right = \<lparr>VerifyOTPRequest.PhoneNumber = ex_phone, VerifyOTPRequest.OTP = ''123456''\<rparr>"

definition ex_wrong :: VerifyOTPRequest where
  "ex_wrong = \<lparr>VerifyOTPRequest.PhoneNumber = ex_phone, VerifyOTPRequest.OTP = ''123457''\<rparr>"

text \<open>A random source that draws 1, 2, 3, 4, 5, 6.\<close>

definition ex_reader :: "nat \<Rightarrow> go_error + int" where
  "ex_reader i = Inr (int i + 1)"

text \<open>
  A \<open>SendOTP\<close> call at instant \<open>t\<close> in which every driver call succeeds; \<open>d\<close> is the
  error of the SMS client.
\<close>

definition ex_send_env :: "time \<Rightarrow> go_error option \<Rightarrow> send_env" where
  "ex_send_env t d =
     \<lparr>lookup_fault = None, until_now = t, resend_delete_fault = None, reader = ex_reader,
      expiry_now = t, create_fault = None, created_now = t, updated_now = t,
      dispatch_err = d, rollback_fault = None\<rparr>"

definition ex_request :: OTPRequest where
  "ex_request = \<lparr>OTPRequest.PhoneNumber = ex_phone\<rparr>"

definition ex_post :: throttle_request where
  "ex_post = \<lparr>param_phone = [], request_method = ''POST'', body_phone_number = Some ex_phone\<rparr>"

section \<open>VerifyOTP: the outcome of each path\<close>

lemmas ex_defs = ex_phone_def ex_record_def ex_coll_def ex_verify_env_def ex_right_def
  ex_wrong_def Minute_def

lemma VerifyOTP_find_failed:
  "find_fault env = Some e \<Longrightarrow> VerifyOTP env coll req = (Inr notFoundResponse, coll)"
  by (simp add: VerifyOTP_def FindByPhone_def)

lemma VerifyOTP_no_record:
  "coll (VerifyOTPRequest.PhoneNumber req) = None \<Longrightarrow>
   VerifyOTP env coll req = (Inr notFoundResponse, coll)"
  by (simp add: VerifyOTP_def FindByPhone_def split: option.splits)

lemma VerifyOTP_expired:
  assumes "find_fault env = None" and "coll (VerifyOTPRequest.PhoneNumber req) = Some r"
    and "OTP.ExpiresAt r < verify_now env"
  shows "VerifyOTP env coll req =
           (Inr expiredResponse,
            if delete_fault env = None then coll(VerifyOTPRequest.PhoneNumber req := None) else coll)"
  using assms by (auto simp: VerifyOTP_def FindByPhone_def DeleteByPhone_def)

lemma VerifyOTP_ceiling:
  assumes "find_fault env = None" and "coll (VerifyOTPRequest.PhoneNumber req) = Some r"
    and "\<not> OTP.ExpiresAt r < verify_now env" and "MaxAttempts r \<le> Attempts r"
  shows "VerifyOTP env coll req = (Inr maxAttemptsResponse, coll)"
  using assms by (simp add: VerifyOTP_def FindByPhone_def)

lemma VerifyOTP_mismatch:
  assumes "find_fault env = None" and "coll (VerifyOTPRequest.PhoneNumber req) = Some r"
    and "\<not> OTP.ExpiresAt r < verify_now env" and "Attempts r < MaxAttempts r"
    and "OTP.Code r \<noteq> VerifyOTPRequest.OTP req"
  shows "VerifyOTP env coll req =
           (Inr invalidResponse,
            if incr_fault env = None
            then coll(VerifyOTPRequest.PhoneNumber req \<mapsto>
                        r\<lparr>Attempts := Attempts r + 1, UpdatedAt := incr_now env\<rparr>)
            else coll)"
  using assms by (auto simp: VerifyOTP_def FindByPhone_def IncrementAttempts_def)

lemma VerifyOTP_match:
  assumes "find_fault env = None" and "coll (VerifyOTPRequest.PhoneNumber req) = Some r"
    and "\<not> OTP.ExpiresAt r < verify_now env" and "Attempts r < MaxAttempts r"
    and "OTP.Code r = VerifyOTPRequest.OTP req"
  shows "VerifyOTP env coll req =
           (Inr verifiedResponse,
            if delete_fault env = None then coll(VerifyOTPRequest.PhoneNumber req := None)
            else if incr_fault env = None
            then coll(VerifyOTPRequest.PhoneNumber req \<mapsto>
                        r\<lparr>Attempts := Attempts r + 1, UpdatedAt := incr_now env\<rparr>)
            else coll)"
  using assms by (auto simp: VerifyOTP_def FindByPhone_def IncrementAttempts_def DeleteByPhone_def)

lemma VerifyOTP_wrong_step:
  assumes "coll p = Some r" and "VerifyOTPRequest.PhoneNumber q = p"
    and "VerifyOTPRequest.OTP q \<noteq> OTP.Code r"
    and "find_fault e = None" and "incr_fault e = None"
    and "\<not> OTP.ExpiresAt r < verify_now e" and "Attempts r < MaxAttempts r"
  shows "VerifyOTP e coll q =
           (Inr invalidResponse,
            coll(p \<mapsto> r\<lparr>Attempts := Attempts r + 1, UpdatedAt := incr_now e\<rparr>))"
  using VerifyOTP_mismatch [of e coll q r] assms by auto

lemma VerifyOTP_nil_error: "\<exists>resp. fst (VerifyOTP env coll req) = Inr resp"
  by (simp add: VerifyOTP_def Let_def split: sum.splits)

lemma VerifyOTP_response_ignores_incr_fault:
  "fst (VerifyOTP (env\<lparr>incr_fault := f\<rparr>) coll req) = fst (VerifyOTP env coll req)"
  by (simp add: VerifyOTP_def Let_def split: sum.splits)

lemma VerifyOTP_response_ignores_delete_fault:
  "fst (VerifyOTP (env\<lparr>delete_fault := g\<rparr>) coll req) = fst (VerifyOTP env coll req)"
  by (simp add: VerifyOTP_def Let_def split: sum.splits)

section \<open>The claims about VerifyOTP\<close>

text \<open>
  C1. For a phone whose record \<open>r\<close> is in the collection, \<open>VerifyOTP\<close> evaluates its
  guards in a fixed order, and the theorem gives the response and the collection after
  the call on every path. A lookup that fails gives "not found" and changes nothing. When
  the lookup goes through: first, an expired record (\<open>verify_now > ExpiresAt\<close>) gives the
  "expired" response and \<open>DeleteByPhone\<close> is called, the attempts not incremented (the
  record is gone when that call succeeds and is exactly as it was otherwise); second, an
  unexpired record with \<open>Attempts \<ge> MaxAttempts\<close> gives the "max attempts" response for
  every submitted code and the collection is unchanged; only when both guards pass is
  \<open>IncrementAttempts\<close> called, so that the record holds \<open>Attempts + 1\<close> when that call
  succeeds, and the code compared: a wrong code gives "invalid code" and leaves the
  incremented record, the right code gives the verified response and \<open>DeleteByPhone\<close> is
  called. Consequently an expired record is never reported valid and never has its
  attempts incremented, whatever the driver calls do.
\<close>

theorem VerifyOTP_guard_order:
  assumes "coll (VerifyOTPRequest.PhoneNumber req) = Some r"
  shows "(find_fault env \<noteq> None \<longrightarrow> VerifyOTP env coll req = (Inr notFoundResponse, coll)) \<and>
         (find_fault env = None \<longrightarrow>
            (OTP.ExpiresAt r < verify_now env \<longrightarrow>
               VerifyOTP env coll req =
                 (Inr expiredResponse,
                  if delete_fault env = None
                  then coll(VerifyOTPRequest.PhoneNumber req := None) else coll)) \<and>
            (\<not> OTP.ExpiresAt r < verify_now env \<and> MaxAttempts r \<le> Attempts r \<longrightarrow>
               VerifyOTP env coll req = (Inr maxAttemptsResponse, coll)) \<and>
            (\<not> OTP.ExpiresAt r < verify_now env \<and> Attempts r < MaxAttempts r \<and>
             OTP.Code r \<noteq> VerifyOTPRequest.OTP req \<longrightarrow>
               VerifyOTP env coll req =
                 (Inr invalidResponse,
                  if incr_fault env = None
                  then coll(VerifyOTPRequest.PhoneNumber req \<mapsto>
                              r\<lparr>Attempts := Attempts r + 1, UpdatedAt := incr_now env\<rparr>)
                  else coll)) \<and>
            (\<not> OTP.ExpiresAt r < verify_now env \<and> Attempts r < MaxAttempts r \<and>
             OTP.Code r = VerifyOTPRequest.OTP req \<longrightarrow>
               VerifyOTP env coll req =
                 (Inr verifiedResponse,
                  if delete_fault env = None
                  then coll(VerifyOTPRequest.PhoneNumber req := None)
                  else if incr_fault env = None
                  then coll(VerifyOTPRequest.PhoneNumber req \<mapsto>
                              r\<lparr>Attempts := Attempts r + 1, UpdatedAt := incr_now env\<rparr>)
                  else coll))) \<and>
         (OTP.ExpiresAt r < verify_now env \<longrightarrow>
            (\<exists>resp. fst (VerifyOTP env coll req) = Inr resp \<and> \<not> Valid resp) \<and>
            snd (VerifyOTP env coll req) (VerifyOTPRequest.PhoneNumber req) \<in> {None, Some r})"
proof -
  let ?p = "VerifyOTPRequest.PhoneNumber req"
  have failed: "VerifyOTP env coll req = (Inr notFoundResponse, coll)" if "find_fault env \<noteq> None"
    using that VerifyOTP_find_failed [where env = env and coll = coll and req = req] by blast
  have expired: "VerifyOTP env coll req =
      (Inr expiredResponse, if delete_fault env = None then coll(?p := None) else coll)"
    if "find_fault env = None" "OTP.ExpiresAt r < verify_now env"
    using that(1) assms that(2) by (rule VerifyOTP_expired)
  have ceiling: "VerifyOTP env coll req = (Inr maxAttemptsResponse, coll)"
    if "find_fault env = None" "\<not> OTP.ExpiresAt r < verify_now env" "MaxAttempts r \<le> Attempts r"
    using that(1) assms that(2,3) by (rule VerifyOTP_ceiling)
  have mismatch: "VerifyOTP env coll req =
      (Inr invalidResponse,
       if incr_fault env = None
       then coll(?p \<mapsto> r\<lparr>Attempts := Attempts r + 1, UpdatedAt := incr_now env\<rparr>) else coll)"
    if "find_fault env = None" "\<not> OTP.ExpiresAt r < verify_now env" "Attempts r < MaxAttempts r"
      "OTP.Code r \<noteq> VerifyOTPRequest.OTP req"
    using that(1) assms that(2,3,4) by (rule VerifyOTP_mismatch)
  have match: "VerifyOTP env coll req =
      (Inr verifiedResponse,
       if delete_fault env = None then coll(?p := None)
       else if incr_fault env = None
       then coll(?p \<mapsto> r\<lparr>Attempts := Attempts r + 1, UpdatedAt := incr_now env\<rparr>) else coll)"
    if "find_fault env = None" "\<not> OTP.ExpiresAt r < verify_now env" "Attempts r < MaxAttempts r"
      "OTP.Code r = VerifyOTPRequest.OTP req"
    using that(1) assms that(2,3,4) by (rule VerifyOTP_match)
  have never_valid: "\<exists>resp. fst (VerifyOTP env coll req) = Inr resp \<and> \<not> Valid resp"
    and untouched: "snd (VerifyOTP env coll req) ?p \<in> {None, Some r}"
    if old: "OTP.ExpiresAt r < verify_now env"
  proof -
    show "\<exists>resp. fst (VerifyOTP env coll req) = Inr resp \<and> \<not> Valid resp"
    proof (cases "find_fault env = None")
      case True
      from expired [OF True old] show ?thesis
        by (simp add: expiredResponse_def)
    next
      case False
      from failed [OF False] show ?thesis
        by (simp add: notFoundResponse_def)
    qed
    show "snd (VerifyOTP env coll req) ?p \<in> {None, Some r}"
    proof (cases "find_fault env = None")
      case True
      from expired [OF True old] assms show ?thesis
        by simp
    next
      case False
      from failed [OF False] assms show ?thesis
        by simp
    qed
  qed
  from failed expired ceiling mismatch match never_valid untouched show ?thesis
    by blast
qed

theorem VerifyOTP_guard_order_witness:
  "VerifyOTP (ex_verify_env (5 * Minute + 1)) ex_coll ex_right =
     (Inr expiredResponse, ex_coll(ex_phone := None)) \<and>
   VerifyOTP (ex_verify_env Minute) (ex_coll(ex_phone \<mapsto> ex_record\<lparr>Attempts := 3\<rparr>)) ex_right =
     (Inr maxAttemptsResponse, ex_coll(ex_phone \<mapsto> ex_record\<lparr>Attempts := 3\<rparr>)) \<and>
   VerifyOTP (ex_verify_env Minute) ex_coll ex_wrong =
     (Inr invalidResponse,
      ex_coll(ex_phone \<mapsto> ex_record\<lparr>Attempts := 1, UpdatedAt := Minute\<rparr>)) \<and>
   VerifyOTP (ex_verify_env Minute) ex_coll ex_right =
     (Inr verifiedResponse, ex_coll(ex_phone := None))"
proof -
  have rec: "ex_coll (VerifyOTPRequest.PhoneNumber ex_right) = Some ex_record"
    "ex_coll (VerifyOTPRequest.PhoneNumber ex_wrong) = Some ex_record"
    "(ex_coll(ex_phone \<mapsto> ex_record\<lparr>Attempts := 3\<rparr>)) (VerifyOTPRequest.PhoneNumber ex_right) =
       Some (ex_record\<lparr>Attempts := 3\<rparr>)"
    by (simp_all add: ex_coll_def ex_right_def ex_wrong_def)
  have phone: "VerifyOTPRequest.PhoneNumber ex_right = ex_phone"
    "VerifyOTPRequest.PhoneNumber ex_wrong = ex_phone"
    by (simp_all add: ex_right_def ex_wrong_def)
  have env: "find_fault (ex_verify_env t) = None" "delete_fault (ex_verify_env t) = None"
    "incr_fault (ex_verify_env t) = None" "verify_now (ex_verify_env t) = t"
    "incr_now (ex_verify_env t) = t" for t
    by (simp_all add: ex_verify_env_def)
  have facts: "OTP.ExpiresAt ex_record < 5 * Minute + 1" "\<not> OTP.ExpiresAt ex_record < Minute"
    "\<not> OTP.ExpiresAt (ex_record\<lparr>Attempts := 3\<rparr>) < Minute"
    "MaxAttempts (ex_record\<lparr>Attempts := 3\<rparr>) \<le> Attempts (ex_record\<lparr>Attempts := 3\<rparr>)"
    "Attempts ex_record < MaxAttempts ex_record" "Attempts ex_record + 1 = 1"
    "OTP.Code ex_record \<noteq> VerifyOTPRequest.OTP ex_wrong"
    "OTP.Code ex_record = VerifyOTPRequest.OTP ex_right"
    by (simp_all add: ex_record_def ex_right_def ex_wrong_def Minute_def)
  have a: "VerifyOTP (ex_verify_env (5 * Minute + 1)) ex_coll ex_right =
     (Inr expiredResponse, ex_coll(ex_phone := None))"
    using VerifyOTP_guard_order [where coll = ex_coll and req = ex_right and r = ex_record
        and env = "ex_verify_env (5 * Minute + 1)", OF rec(1)] facts(1)
    by (simp only: env phone) simp
  have b: "VerifyOTP (ex_verify_env Minute) (ex_coll(ex_phone \<mapsto> ex_record\<lparr>Attempts := 3\<rparr>)) ex_right =
     (Inr maxAttemptsResponse, ex_coll(ex_phone \<mapsto> ex_record\<lparr>Attempts := 3\<rparr>))"
    using VerifyOTP_guard_order [where coll = "ex_coll(ex_phone \<mapsto> ex_record\<lparr>Attempts := 3\<rparr>)"
        and req = ex_right and r = "ex_record\<lparr>Attempts := 3\<rparr>" and env = "ex_verify_env Minute",
        OF rec(3)] facts(3,4)
    by (simp only: env phone) simp
  have c: "VerifyOTP (ex_verify_env Minute) ex_coll ex_wrong =
     (Inr invalidResponse,
      ex_coll(ex_phone \<mapsto> ex_record\<lparr>Attempts := 1, UpdatedAt := Minute\<rparr>))"
    using VerifyOTP_guard_order [where coll = ex_coll and req = ex_wrong and r = ex_record
        and env = "ex_verify_env Minute", OF rec(2)] facts(2,5,6,7)
    by (simp only: env phone) simp
  have d: "VerifyOTP (ex_verify_env Minute) ex_coll ex_right =
     (Inr verifiedResponse, ex_coll(ex_phone := None))"
    using VerifyOTP_guard_order [where coll = ex_coll and req = ex_right and r = ex_record
        and env = "ex_verify_env Minute", OF rec(1)] facts(2,5,8)
    by (simp only: env phone) simp
  from a b c d show ?thesis by blast
qed

text \<open>
  C2, as stated, fails. From a fresh record (attempts 0, ceiling 3, unexpired) the third
  call with a wrong code is answered like the first two, with the "invalid code"
  response, not with "max attempts": the ceiling is checked before the increment, so the
  third call still finds \<open>Attempts = 2 < 3\<close>.
\<close>

theorem third_wrong_code_is_invalid:
  "fst (VerifyOTP_calls ex_coll
          [(ex_verify_env 1, ex_wrong), (ex_verify_env 2, ex_wrong), (ex_verify_env 3, ex_wrong)]) =
     [Inr invalidResponse, Inr invalidResponse, Inr invalidResponse] \<and>
   invalidResponse \<noteq> maxAttemptsResponse"
  by code_simp

text \<open>
  C2, amended. From a fresh record (attempts 0, ceiling 3), with the lookups and the
  increments going through and the record unexpired at every call, three calls with a
  wrong code each return "invalid code" and leave \<open>Attempts = 3\<close>; the fourth call,
  whatever its code (the right one included), returns "max attempts" and changes nothing.
\<close>

theorem ceiling_reached_by_the_fourth_call:
  assumes rec: "coll p = Some r" "Attempts r = 0" "MaxAttempts r = 3"
    and phones: "\<forall>q \<in> {q1, q2, q3, q4}. VerifyOTPRequest.PhoneNumber q = p"
    and wrong: "\<forall>q \<in> {q1, q2, q3}. VerifyOTPRequest.OTP q \<noteq> OTP.Code r"
    and store: "\<forall>e \<in> {e1, e2, e3}. find_fault e = None \<and> incr_fault e = None"
               "find_fault e4 = None"
    and live: "\<forall>e \<in> {e1, e2, e3, e4}. \<not> OTP.ExpiresAt r < verify_now e"
  shows "VerifyOTP_calls coll [(e1, q1), (e2, q2), (e3, q3), (e4, q4)] =
           ([Inr invalidResponse, Inr invalidResponse, Inr invalidResponse,
             Inr maxAttemptsResponse],
            coll(p \<mapsto> r\<lparr>Attempts := 3, UpdatedAt := incr_now e3\<rparr>))"
proof -
  let ?r1 = "r\<lparr>Attempts := 1, UpdatedAt := incr_now e1\<rparr>"
  let ?r2 = "r\<lparr>Attempts := 2, UpdatedAt := incr_now e2\<rparr>"
  let ?r3 = "r\<lparr>Attempts := 3, UpdatedAt := incr_now e3\<rparr>"
  have s1: "VerifyOTP e1 coll q1 = (Inr invalidResponse, coll(p \<mapsto> ?r1))"
    using rec phones wrong store live
    by (subst VerifyOTP_wrong_step [of coll p r q1 e1]) simp_all
  have s2: "VerifyOTP e2 (coll(p \<mapsto> ?r1)) q2 = (Inr invalidResponse, coll(p \<mapsto> ?r2))"
    using rec phones wrong store live
    by (subst VerifyOTP_wrong_step [of "coll(p \<mapsto> ?r1)" p ?r1 q2 e2]) simp_all
  have s3: "VerifyOTP e3 (coll(p \<mapsto> ?r2)) q3 = (Inr invalidResponse, coll(p \<mapsto> ?r3))"
    using rec phones wrong store live
    by (subst VerifyOTP_wrong_step [of "coll(p \<mapsto> ?r2)" p ?r2 q3 e3]) simp_all
  have s4: "VerifyOTP e4 (coll(p \<mapsto> ?r3)) q4 = (Inr maxAttemptsResponse, coll(p \<mapsto> ?r3))"
    using rec phones store live
    by (subst VerifyOTP_ceiling [of e4 "coll(p \<mapsto> ?r3)" q4 ?r3]) simp_all
  show ?thesis
    by (simp add: s1 s2 s3 s4)
qed

theorem ceiling_reached_by_the_fourth_call_witness:
  "VerifyOTP_calls ex_coll
     [(ex_verify_env 1, ex_wrong), (ex_verify_env 2, ex_wrong), (ex_verify_env 3, ex_wrong),
      (ex_verify_env 4, ex_right)] =
   ([Inr invalidResponse, Inr invalidResponse, Inr invalidResponse, Inr maxAttemptsResponse],
    ex_coll(ex_phone \<mapsto> ex_record\<lparr>Attempts := 3, UpdatedAt := incr_now (ex_verify_env 3)\<rparr>))"
proof (rule ceiling_reached_by_the_fourth_call)
  show "ex_coll ex_phone = Some ex_record"
    by (simp add: ex_coll_def)
  show "Attempts ex_record = 0" "MaxAttempts ex_record = 3"
    by (simp_all add: ex_record_def)
  show "\<forall>q \<in> {ex_wrong, ex_wrong, ex_wrong, ex_right}. VerifyOTPRequest.PhoneNumber q = ex_phone"
    by (simp add: ex_wrong_def ex_right_def)
  show "\<forall>q \<in> {ex_wrong, ex_wrong, ex_wrong}. VerifyOTPRequest.OTP q \<noteq> OTP.Code ex_record"
    by (simp add: ex_wrong_def ex_record_def)
  show "\<forall>e \<in> {ex_verify_env 1, ex_verify_env 2, ex_verify_env 3}.
          find_fault e = None \<and> incr_fault e = None"
    by (simp add: ex_verify_env_def)
  show "find_fault (ex_verify_env 4) = None"
    by (simp add: ex_verify_env_def)
  show "\<forall>e \<in> {ex_verify_env 1, ex_verify_env 2, ex_verify_env 3, ex_verify_env 4}.
          \<not> OTP.ExpiresAt ex_record < verify_now e"
    by (simp add: ex_verify_env_def ex_record_def Minute_def)
qed

text \<open>
  C3, as stated, fails. \<open>VerifyOTP\<close> drops the error of \<open>DeleteByPhone\<close>: when the delete
  after a successful verification fails, the verified response is returned all the same
  and the record stays, so the next call with the same code is verified again. And when
  the lookup fails, the stored code is answered with "not found".
\<close>

theorem delete_failure_lets_the_code_verify_again:
  "VerifyOTP_calls ex_coll
     [((ex_verify_env Minute)\<lparr>delete_fault := Some (OtherError ''context canceled'')\<rparr>, ex_right),
      (ex_verify_env (Minute + 1), ex_right)] =
     ([Inr verifiedResponse, Inr verifiedResponse], ex_coll(ex_phone := None)) \<and>
   VerifyOTP ((ex_verify_env Minute)\<lparr>find_fault := Some (OtherError ''context canceled'')\<rparr>)
     ex_coll ex_right = (Inr notFoundResponse, ex_coll)"
proof -
  let ?e1 = "(ex_verify_env Minute)\<lparr>delete_fault := Some (OtherError ''context canceled'')\<rparr>"
  let ?r1 = "ex_record\<lparr>Attempts := Attempts ex_record + 1, UpdatedAt := incr_now ?e1\<rparr>"
  have phone: "VerifyOTPRequest.PhoneNumber ex_right = ex_phone"
    by (simp add: ex_right_def)
  have first: "VerifyOTP ?e1 ex_coll ex_right = (Inr verifiedResponse, ex_coll(ex_phone \<mapsto> ?r1))"
    by (subst VerifyOTP_match [where r = ex_record])
      (simp_all add: ex_verify_env_def ex_coll_def ex_right_def ex_record_def Minute_def)
  have second: "VerifyOTP (ex_verify_env (Minute + 1)) (ex_coll(ex_phone \<mapsto> ?r1)) ex_right =
                  (Inr verifiedResponse, ex_coll(ex_phone := None))"
    by (subst VerifyOTP_match [where r = ?r1])
      (simp_all add: ex_verify_env_def ex_right_def ex_record_def Minute_def)
  have third: "VerifyOTP ((ex_verify_env Minute)\<lparr>find_fault := Some (OtherError ''context canceled'')\<rparr>)
     ex_coll ex_right = (Inr notFoundResponse, ex_coll)"
    by (rule VerifyOTP_find_failed) simp
  from first second third show ?thesis
    by simp
qed

text \<open>
  C3, amended. For a phone with an unexpired record whose attempts are below the ceiling,
  a \<open>VerifyOTP\<close> call with the stored code whose lookup goes through returns the verified
  response and calls \<open>DeleteByPhone\<close>, whose error it discards. When that delete succeeds
  the record is gone, and the next call for the phone, with any code and in any
  environment, returns the "not found or expired" rejection: the code verifies once. When
  the delete fails the record stays, with the attempt counted if the increment went
  through.
\<close>

theorem correct_code_verifies_once:
  assumes "coll (VerifyOTPRequest.PhoneNumber req) = Some r"
    and "\<not> OTP.ExpiresAt r < verify_now env" and "Attempts r < MaxAttempts r"
    and "VerifyOTPRequest.OTP req = OTP.Code r"
    and "find_fault env = None"
    and "VerifyOTPRequest.PhoneNumber req2 = VerifyOTPRequest.PhoneNumber req"
  shows "VerifyOTP env coll req =
           (Inr verifiedResponse,
            if delete_fault env = None then coll(VerifyOTPRequest.PhoneNumber req := None)
            else if incr_fault env = None
            then coll(VerifyOTPRequest.PhoneNumber req \<mapsto>
                        r\<lparr>Attempts := Attempts r + 1, UpdatedAt := incr_now env\<rparr>)
            else coll) \<and>
         (delete_fault env = None \<longrightarrow>
            VerifyOTP_calls coll [(env, req), (env2, req2)] =
              ([Inr verifiedResponse, Inr notFoundResponse],
               coll(VerifyOTPRequest.PhoneNumber req := None)))"
proof -
  let ?coll' = "coll(VerifyOTPRequest.PhoneNumber req := None)"
  have call: "VerifyOTP env coll req =
           (Inr verifiedResponse,
            if delete_fault env = None then ?coll'
            else if incr_fault env = None
            then coll(VerifyOTPRequest.PhoneNumber req \<mapsto>
                        r\<lparr>Attempts := Attempts r + 1, UpdatedAt := incr_now env\<rparr>)
            else coll)"
    using assms(5) assms(1) assms(2) assms(3) assms(4) [symmetric] by (rule VerifyOTP_match)
  have second: "VerifyOTP env2 ?coll' req2 = (Inr notFoundResponse, ?coll')"
    by (rule VerifyOTP_no_record) (simp add: assms(6))
  have "VerifyOTP_calls coll [(env, req), (env2, req2)] =
          ([Inr verifiedResponse, Inr notFoundResponse], ?coll')"
    if ok: "delete_fault env = None"
  proof -
    from call ok have "VerifyOTP env coll req = (Inr verifiedResponse, ?coll')"
      by simp
    with second show ?thesis
      by simp
  qed
  with call show ?thesis
    by blast
qed

theorem correct_code_verifies_once_witness:
  "VerifyOTP_calls ex_coll [(ex_verify_env Minute, ex_right), (ex_verify_env (Minute + 1), ex_right)] =
     ([Inr verifiedResponse, Inr notFoundResponse],
      ex_coll(VerifyOTPRequest.PhoneNumber ex_right := None))"
proof -
  have a: "ex_coll (VerifyOTPRequest.PhoneNumber ex_right) = Some ex_record"
    by (simp add: ex_coll_def ex_right_def)
  have b: "\<not> OTP.ExpiresAt ex_record < verify_now (ex_verify_env Minute)"
    by (simp add: ex_record_def ex_verify_env_def Minute_def)
  have c: "Attempts ex_record < MaxAttempts ex_record"
    by (simp add: ex_record_def)
  have d: "VerifyOTPRequest.OTP ex_right = OTP.Code ex_record"
    by (simp add: ex_right_def ex_record_def)
  have e: "find_fault (ex_verify_env Minute) = None" "delete_fault (ex_verify_env Minute) = None"
    by (simp_all add: ex_verify_env_def)
  from correct_code_verifies_once
         [where coll = ex_coll and req = ex_right and r = ex_record and env = "ex_verify_env Minute"
           and ?req2.0 = ex_right and ?env2.0 = "ex_verify_env (Minute + 1)",
           OF a b c d e(1) refl] e(2)
  show ?thesis
    by blast
qed

text \<open>
  C6, as stated, fails. A lookup that fails with a driver error, on a collection that
  holds a valid record, is answered with a nil error and the very response of a missing
  record; an increment that fails is answered with the ordinary "invalid code" response,
  and the attempt is not counted (compare the last line, where the increment goes
  through).
\<close>

theorem store_errors_reported_as_normal_rejections:
  "VerifyOTP ((ex_verify_env 1)\<lparr>find_fault := Some (OtherError ''context canceled'')\<rparr>)
     ex_coll ex_right = (Inr notFoundResponse, ex_coll) \<and>
   VerifyOTP (ex_verify_env 1) Map.empty ex_right = (Inr notFoundResponse, Map.empty) \<and>
   VerifyOTP ((ex_verify_env 1)\<lparr>incr_fault := Some (OtherError ''context canceled'')\<rparr>)
     ex_coll ex_wrong = (Inr invalidResponse, ex_coll) \<and>
   VerifyOTP (ex_verify_env 1) ex_coll ex_wrong =
     (Inr invalidResponse, ex_coll(ex_phone \<mapsto> ex_record\<lparr>Attempts := 1, UpdatedAt := 1\<rparr>))"
proof -
  have a: "VerifyOTP ((ex_verify_env 1)\<lparr>find_fault := Some (OtherError ''context canceled'')\<rparr>)
     ex_coll ex_right = (Inr notFoundResponse, ex_coll)"
    by (rule VerifyOTP_find_failed) simp
  have b: "VerifyOTP (ex_verify_env 1) Map.empty ex_right = (Inr notFoundResponse, Map.empty)"
    by (rule VerifyOTP_no_record) simp
  have c: "VerifyOTP ((ex_verify_env 1)\<lparr>incr_fault := Some (OtherError ''context canceled'')\<rparr>)
     ex_coll ex_wrong = (Inr invalidResponse, ex_coll)"
    using VerifyOTP_mismatch [of "(ex_verify_env 1)\<lparr>incr_fault := Some (OtherError ''context canceled'')\<rparr>"
        ex_coll ex_wrong ex_record]
    by (simp add: ex_defs)
  have d: "VerifyOTP (ex_verify_env 1) ex_coll ex_wrong =
     (Inr invalidResponse, ex_coll(ex_phone \<mapsto> ex_record\<lparr>Attempts := 1, UpdatedAt := 1\<rparr>))"
    using VerifyOTP_mismatch [of "ex_verify_env 1" ex_coll ex_wrong ex_record]
    by (simp add: ex_defs)
  from a b c d show ?thesis by blast
qed

text \<open>
  C6, amended. \<open>VerifyOTP\<close> never returns an error. A lookup that fails is reported as the
  ordinary "not found or expired" rejection, and nothing is changed. A failure of the
  attempt increment is only logged: the response is the one the call gives when the
  increment goes through, and after a wrong code the collection is left as it was, the
  attempt uncounted. The error of \<open>DeleteByPhone\<close> is discarded in the same way and does
  not change the response.
\<close>

theorem VerifyOTP_store_errors_swallowed:
  "(\<exists>resp. fst (VerifyOTP env coll req) = Inr resp) \<and>
   (find_fault env \<noteq> None \<longrightarrow> VerifyOTP env coll req = (Inr notFoundResponse, coll)) \<and>
   fst (VerifyOTP (env\<lparr>incr_fault := f\<rparr>) coll req) = fst (VerifyOTP env coll req) \<and>
   fst (VerifyOTP (env\<lparr>delete_fault := g\<rparr>) coll req) = fst (VerifyOTP env coll req) \<and>
   (incr_fault env \<noteq> None \<longrightarrow> find_fault env = None \<longrightarrow>
    coll (VerifyOTPRequest.PhoneNumber req) = Some r \<longrightarrow>
    \<not> OTP.ExpiresAt r < verify_now env \<longrightarrow> Attempts r < MaxAttempts r \<longrightarrow>
    OTP.Code r \<noteq> VerifyOTPRequest.OTP req \<longrightarrow>
      VerifyOTP env coll req = (Inr invalidResponse, coll))"
proof -
  have "find_fault env \<noteq> None \<longrightarrow> VerifyOTP env coll req = (Inr notFoundResponse, coll)"
    using VerifyOTP_find_failed [where env = env and coll = coll and req = req] by blast
  moreover have "incr_fault env \<noteq> None \<longrightarrow> find_fault env = None \<longrightarrow>
    coll (VerifyOTPRequest.PhoneNumber req) = Some r \<longrightarrow>
    \<not> OTP.ExpiresAt r < verify_now env \<longrightarrow> Attempts r < MaxAttempts r \<longrightarrow>
    OTP.Code r \<noteq> VerifyOTPRequest.OTP req \<longrightarrow>
      VerifyOTP env coll req = (Inr invalidResponse, coll)"
    using VerifyOTP_mismatch [of env coll req r] by simp
  ultimately show ?thesis
    using VerifyOTP_nil_error [of env coll req]
      VerifyOTP_response_ignores_incr_fault [where env = env and f = f and coll = coll and req = req]
      VerifyOTP_response_ignores_delete_fault [where env = env and g = g and coll = coll and req = req]
    by blast
qed

theorem VerifyOTP_store_errors_swallowed_witness:
  "VerifyOTP ((ex_verify_env 1)\<lparr>find_fault := Some (OtherError ''context canceled'')\<rparr>)
     ex_coll ex_right = (Inr notFoundResponse, ex_coll) \<and>
   VerifyOTP ((ex_verify_env 1)\<lparr>incr_fault := Some (OtherError ''context canceled'')\<rparr>)
     ex_coll ex_wrong = (Inr invalidResponse, ex_coll)"
proof -
  let ?e1 = "(ex_verify_env 1)\<lparr>find_fault := Some (OtherError ''context canceled'')\<rparr>"
  let ?e2 = "(ex_verify_env 1)\<lparr>incr_fault := Some (OtherError ''context canceled'')\<rparr>"
  have a: "find_fault ?e1 \<noteq> None"
    by simp
  have b: "incr_fault ?e2 \<noteq> None" "find_fault ?e2 = None"
    "ex_coll (VerifyOTPRequest.PhoneNumber ex_wrong) = Some ex_record"
    "\<not> OTP.ExpiresAt ex_record < verify_now ?e2" "Attempts ex_record < MaxAttempts ex_record"
    "OTP.Code ex_record \<noteq> VerifyOTPRequest.OTP ex_wrong"
    by (simp_all add: ex_defs)
  from a b
    VerifyOTP_store_errors_swallowed
      [where env = ?e1 and coll = ex_coll and req = ex_right and f = None and r = ex_record]
    VerifyOTP_store_errors_swallowed
      [where env = ?e2 and coll = ex_coll and req = ex_wrong and f = None and r = ex_record]
  show ?thesis by blast
qed

section \<open>generateOTP: the loop and its result\<close>

lemma Sprintf_d_digit: "0 \<le> d \<Longrightarrow> d < 10 \<Longrightarrow> Sprintf_d d = [''0123456789'' ! nat d]"
  by (simp add: Sprintf_d_def decimal.simps)

lemma digit_in_table: "n < 10 \<Longrightarrow> ''0123456789'' ! n \<in> set ''0123456789''"
  by (rule nth_mem) simp

lemma generateOTP_loop_result:
  "\<forall>k<6. \<forall>d. rd k = Inr d \<longrightarrow> 0 \<le> d \<and> d < 10 \<Longrightarrow>
   generateOTP_loop rd i acc = Inr otp \<Longrightarrow>
   (\<forall>k. i \<le> k \<and> k < 6 \<longrightarrow> (\<exists>d. rd k = Inr d)) \<and>
   otp = acc @ map (\<lambda>k. ''0123456789'' ! nat (projr (rd k))) [i..<6]"
proof (induction rd i acc rule: generateOTP_loop.induct)
  case (1 rd i acc)
  note range = "1.prems"(1) and result = "1.prems"(2)
  show ?case
  proof (cases "i < 6")
    case False
    with result show ?thesis
      by (auto simp: generateOTP_loop.simps [of rd i acc])
  next
    case True
    from True result obtain num where num: "rd i = Inr num"
      by (cases "rd i") (simp_all add: generateOTP_loop.simps [of rd i acc])
    with True result
    have rec: "generateOTP_loop rd (i + 1) (acc @ Sprintf_d num) = Inr otp"
      by (simp add: generateOTP_loop.simps [of rd i acc])
    from range True num have "0 \<le> num \<and> num < 10"
      by blast
    then have digit: "Sprintf_d num = [''0123456789'' ! nat num]"
      by (simp add: Sprintf_d_digit)
    from "1.IH" [OF True num range rec]
    have ih: "\<forall>k. i + 1 \<le> k \<and> k < 6 \<longrightarrow> (\<exists>d. rd k = Inr d)"
      "otp = (acc @ Sprintf_d num) @
             map (\<lambda>k. ''0123456789'' ! nat (projr (rd k))) [i + 1..<6]"
      by simp_all
    have "\<forall>k. i \<le> k \<and> k < 6 \<longrightarrow> (\<exists>d. rd k = Inr d)"
    proof (intro allI impI)
      fix k assume "i \<le> k \<and> k < 6"
      then consider "k = i" | "i + 1 \<le> k \<and> k < 6" by linarith
      then show "\<exists>d. rd k = Inr d"
        using num ih(1) by cases auto
    qed
    moreover have "[i..<6] = i # [i + 1..<6]"
      using True by (simp add: upt_conv_Cons)
    with ih(2) digit num
    have "otp = acc @ map (\<lambda>k. ''0123456789'' ! nat (projr (rd k))) [i..<6]"
      by simp
    ultimately show ?thesis by blast
  qed
qed

lemma generateOTP_loop_succeeds:
  "\<forall>k. i \<le> k \<and> k < 6 \<longrightarrow> (\<exists>d. rd k = Inr d) \<Longrightarrow>
   \<exists>otp. generateOTP_loop rd i acc = Inr otp"
proof (induction rd i acc rule: generateOTP_loop.induct)
  case (1 rd i acc)
  show ?case
  proof (cases "i < 6")
    case False
    then show ?thesis
      by (simp add: generateOTP_loop.simps [of rd i acc])
  next
    case True
    with "1.prems" obtain num where num: "rd i = Inr num"
      by auto
    from "1.prems" have "\<forall>k. i + 1 \<le> k \<and> k < 6 \<longrightarrow> (\<exists>d. rd k = Inr d)"
      by simp
    from "1.IH" [OF True num this] True num show ?thesis
      by (simp add: generateOTP_loop.simps [of rd i acc])
  qed
qed

lemma generateOTP_succeeds:
  "\<forall>k<6. \<exists>d. rd k = Inr d \<Longrightarrow> \<exists>otp. generateOTP rd = Inr otp"
  unfolding generateOTP_def by (rule generateOTP_loop_succeeds) simp

section \<open>The claim about generateOTP\<close>

text \<open>
  C8. Every code \<open>generateOTP\<close> returns has exactly 6 characters, each a decimal digit,
  and the character at position \<open>k\<close> is the digit of the \<open>k\<close>-th draw alone: the code is
  the six draws written out in order, so the digits are as independent and as uniform as
  the draws of the random source are. The hypothesis is the contract of \<open>rand.Int\<close> with
  bound 10: a successful draw lies in \<open>[0, 10)\<close>.
\<close>

theorem generateOTP_six_digits:
  assumes "\<forall>k<6. \<forall>d. rd k = Inr d \<longrightarrow> 0 \<le> d \<and> d < 10"
    and "generateOTP rd = Inr otp"
  shows "length otp = 6 \<and> (\<forall>c \<in> set otp. c \<in> set ''0123456789'') \<and>
         (\<forall>k<6. \<exists>d. rd k = Inr d \<and> otp ! k = ''0123456789'' ! nat d)"
proof -
  let ?digit = "\<lambda>k. ''0123456789'' ! nat (projr (rd k))"
  from generateOTP_loop_result [of rd 0 "[]" otp] assms
  have draws: "\<forall>k<6. \<exists>d. rd k = Inr d" and otp: "otp = map ?digit [0..<6]"
    by (simp_all add: generateOTP_def)
  have each: "\<exists>d. rd k = Inr d \<and> otp ! k = ''0123456789'' ! nat d" if "k < 6" for k
  proof -
    from draws that obtain d where "rd k = Inr d" by blast
    moreover from otp that have "otp ! k = ?digit k"
      by (simp del: upt.simps)
    ultimately show ?thesis by simp
  qed
  have "c \<in> set ''0123456789''" if "c \<in> set otp" for c
  proof -
    from that otp obtain k where k: "k < 6" "c = ?digit k"
      by auto
    from draws k obtain d where d: "rd k = Inr d" by blast
    with assms(1) k have "0 \<le> d \<and> d < 10" by blast
    then have "nat d < 10" by linarith
    with k d show ?thesis
      using digit_in_table [of "nat d"] by simp
  qed
  moreover from otp have "length otp = 6" by simp
  ultimately show ?thesis using each by blast
qed

theorem generateOTP_six_digits_witness:
  "generateOTP ex_reader = Inr ''123456'' \<and> length ''123456'' = 6 \<and>
   set ''123456'' \<subseteq> set ''0123456789''"
proof -
  have gen: "generateOTP ex_reader = Inr ''123456''"
    by code_simp
  have range: "\<forall>k<6. \<forall>d. ex_reader k = Inr d \<longrightarrow> 0 \<le> d \<and> d < 10"
    by (auto simp: ex_reader_def)
  from generateOTP_six_digits [OF range gen] gen show ?thesis
    by blast
qed

section \<open>SendOTP: the outcome of each path\<close>

lemma SendOTP_cooldown:
  assumes "FindByPhone (lookup_fault env) coll (OTPRequest.PhoneNumber req) = Inr r"
    and "OTP.ExpiresAt r - until_now env > 2 * Minute"
  shows "SendOTP env coll req =
           (Inr \<lparr>OTPResponse.Success = False,
                 OTPResponse.Message = ''OTP already sent. Please wait before requesting a new one.'',
                 OTPResponse.OTP = [], OTPResponse.ExpiresAt = OTP.ExpiresAt r\<rparr>, coll, [])"
  using assms by (simp add: SendOTP_def)

lemma SendOTP_no_cooldown:
  assumes "\<not> (\<exists>r. FindByPhone (lookup_fault env) coll (OTPRequest.PhoneNumber req) = Inr r \<and>
                 OTP.ExpiresAt r - until_now env > 2 * Minute)"
  shows "\<exists>coll1. SendOTP env coll req = SendOTP_issue env coll1 (OTPRequest.PhoneNumber req)"
  using assms by (auto simp: SendOTP_def Let_def split: sum.splits)

lemma SendOTP_issue_Inr:
  assumes "SendOTP_issue env coll phone = (Inr resp, coll', sent)"
  shows "\<exists>otp. generateOTP (reader env) = Inr otp \<and>
               resp = \<lparr>OTPResponse.Success = True,
                       OTPResponse.Message = ''OTP sent successfully'',
                       OTPResponse.OTP = otp,
                       OTPResponse.ExpiresAt = expiry_now env + 5 * Minute\<rparr> \<and>
               sent = [(phone, otp)] \<and> dispatch_err env = None \<and>
               coll' phone =
                 Some \<lparr>Phone = phone, OTP.Code = otp,
                       OTP.ExpiresAt = expiry_now env + 5 * Minute, Attempts = 0,
                       MaxAttempts = 3, CreatedAt = created_now env,
                       UpdatedAt = updated_now env\<rparr>"
  using assms
  by (auto simp: SendOTP_issue_def Create_def Let_def
      split: sum.splits option.splits prod.splits if_splits)

lemma SendOTP_issue_Inl:
  assumes "SendOTP_issue env coll phone = (Inl appErr, coll', sent)"
  shows "(appErr = NewInternalError ''Failed to generate OTP'' \<and> sent = [] \<and> coll' = coll) \<or>
         (appErr = NewInternalError ''Failed to store OTP'' \<and> sent = [] \<and> coll' = coll) \<or>
         (appErr = NewServiceUnavailableError ''SMS provider'' \<and> dispatch_err env \<noteq> None \<and>
          (\<exists>otp. sent = [(phone, otp)]) \<and>
          (rollback_fault env = None \<longrightarrow> coll' phone = None))"
  using assms
  by (auto simp: SendOTP_issue_def Create_def DeleteByPhone_def Let_def
      split: sum.splits option.splits prod.splits if_splits)

lemma internal_not_unavailable: "NewInternalError m \<noteq> NewServiceUnavailableError s"
  by (simp add: NewInternalError_def NewServiceUnavailableError_def)

lemma ex_generate: "generateOTP ex_reader = Inr ''123456''"
  by code_simp

lemma ex_issue:
  "SendOTP (ex_send_env 0 None) Map.empty ex_request =
     (Inr \<lparr>OTPResponse.Success = True, OTPResponse.Message = ''OTP sent successfully'',
           OTPResponse.OTP = ''123456'', OTPResponse.ExpiresAt = 5 * Minute\<rparr>,
      [ex_phone \<mapsto> \<lparr>Phone = ex_phone, OTP.Code = ''123456'', OTP.ExpiresAt = 5 * Minute,
                     Attempts = 0, MaxAttempts = 3, CreatedAt = 0, UpdatedAt = 0\<rparr>],
      [(ex_phone, ''123456'')])"
  by (simp add: SendOTP_def SendOTP_issue_def FindByPhone_def Create_def ex_send_env_def
      ex_request_def ex_generate Let_def)

lemma ex_dispatch_failure:
  "SendOTP (ex_send_env 0 (Some (OtherError ''context deadline exceeded''))) Map.empty ex_request =
     (Inl (NewServiceUnavailableError ''SMS provider''), Map.empty, [(ex_phone, ''123456'')])"
  by (simp add: SendOTP_def SendOTP_issue_def FindByPhone_def Create_def DeleteByPhone_def
      ex_send_env_def ex_request_def ex_generate Let_def)

lemma SendOTP_Inr_cases:
  assumes "SendOTP env coll req = (Inr resp, coll', sent)"
  shows "(\<exists>r. FindByPhone (lookup_fault env) coll (OTPRequest.PhoneNumber req) = Inr r \<and>
              OTP.ExpiresAt r - until_now env > 2 * Minute \<and>
              resp = \<lparr>OTPResponse.Success = False,
                      OTPResponse.Message =
                        ''OTP already sent. Please wait before requesting a new one.'',
                      OTPResponse.OTP = [], OTPResponse.ExpiresAt = OTP.ExpiresAt r\<rparr> \<and>
              coll' = coll \<and> sent = []) \<or>
         (\<not> (\<exists>r. FindByPhone (lookup_fault env) coll (OTPRequest.PhoneNumber req) = Inr r \<and>
                  OTP.ExpiresAt r - until_now env > 2 * Minute) \<and>
          (\<exists>otp. generateOTP (reader env) = Inr otp \<and>
                 resp = \<lparr>OTPResponse.Success = True,
                         OTPResponse.Message = ''OTP sent successfully'',
                         OTPResponse.OTP = otp,
                         OTPResponse.ExpiresAt = expiry_now env + 5 * Minute\<rparr> \<and>
                 sent = [(OTPRequest.PhoneNumber req, otp)]))"
proof (cases "\<exists>r. FindByPhone (lookup_fault env) coll (OTPRequest.PhoneNumber req) = Inr r \<and>
                   OTP.ExpiresAt r - until_now env > 2 * Minute")
  case True
  then obtain r where r: "FindByPhone (lookup_fault env) coll (OTPRequest.PhoneNumber req) = Inr r"
    "OTP.ExpiresAt r - until_now env > 2 * Minute" by blast
  from SendOTP_cooldown [OF r] assms r show ?thesis
    by auto
next
  case False
  from SendOTP_no_cooldown [OF False] assms obtain coll1
    where "SendOTP_issue env coll1 (OTPRequest.PhoneNumber req) = (Inr resp, coll', sent)"
    by auto
  from SendOTP_issue_Inr [OF this] False show ?thesis
    by blast
qed

lemma ex_phone_valid: "isValidPhoneNumber ex_phone"
  by (simp add: isValidPhoneNumber_def ex_phone_def)

lemma SendOTP_issue_unavailable:
  assumes "SendOTP_issue env coll phone =
             (Inl (NewServiceUnavailableError ''SMS provider''), coll', sent)"
  shows "\<exists>otp. sent = [(phone, otp)] \<and> dispatch_err env \<noteq> None \<and>
               coll' phone =
                 (if rollback_fault env = None then None
                  else Some \<lparr>Phone = phone, OTP.Code = otp,
                             OTP.ExpiresAt = expiry_now env + 5 * Minute, Attempts = 0,
                             MaxAttempts = 3, CreatedAt = created_now env,
                             UpdatedAt = updated_now env\<rparr>)"
  using assms internal_not_unavailable
  by (auto simp: SendOTP_issue_def Create_def DeleteByPhone_def Let_def
      split: sum.splits option.splits prod.splits if_splits)

lemma ex_failed_rollback:
  "SendOTP ((ex_send_env 0 (Some (OtherError ''context deadline exceeded'')))
              \<lparr>rollback_fault := Some (OtherError ''context deadline exceeded'')\<rparr>)
     Map.empty ex_request =
     (Inl (NewServiceUnavailableError ''SMS provider''), ex_coll, [(ex_phone, ''123456'')])"
  by (simp add: SendOTP_def SendOTP_issue_def FindByPhone_def Create_def DeleteByPhone_def
      ex_send_env_def ex_request_def ex_generate Let_def ex_coll_def ex_record_def)

section \<open>The claims about SendOTP\<close>

text \<open>
  C4. When the lookup of \<open>SendOTP\<close> finds a record whose \<open>ExpiresAt\<close> is more than 2
  minutes after the instant \<open>time.Until\<close> reads, the call returns a nil error and the
  "already sent" response (\<open>Success\<close> false) carrying that record's \<open>ExpiresAt\<close>; the
  collection is as before the call, so the stored record is the one found, with its code,
  expiry and attempts, and no call is made to the SMS client. (\<open>time.Until\<close> saturates at
  the ends of the \<open>Duration\<close> range; the comparison with 2 minutes comes out the same on
  unbounded integers.)
\<close>

theorem SendOTP_cooldown_changes_nothing:
  assumes "FindByPhone (lookup_fault env) coll (OTPRequest.PhoneNumber req) = Inr r"
    and "OTP.ExpiresAt r - until_now env > 2 * Minute"
  shows "\<exists>resp. SendOTP env coll req = (Inr resp, coll, []) \<and>
                \<not> OTPResponse.Success resp \<and>
                OTPResponse.Message resp =
                  ''OTP already sent. Please wait before requesting a new one.'' \<and>
                OTPResponse.ExpiresAt resp = OTP.ExpiresAt r \<and>
                coll (OTPRequest.PhoneNumber req) = Some r"
proof -
  from assms(1) have "coll (OTPRequest.PhoneNumber req) = Some r"
    by (simp add: FindByPhone_def split: option.splits)
  with SendOTP_cooldown [OF assms] show ?thesis
    by simp
qed

theorem SendOTP_cooldown_changes_nothing_witness:
  "\<exists>resp. SendOTP (ex_send_env Minute None) ex_coll ex_request = (Inr resp, ex_coll, []) \<and>
          \<not> OTPResponse.Success resp \<and>
          OTPResponse.Message resp =
            ''OTP already sent. Please wait before requesting a new one.'' \<and>
          OTPResponse.ExpiresAt resp = OTP.ExpiresAt ex_record \<and>
          ex_coll (OTPRequest.PhoneNumber ex_request) = Some ex_record"
proof (rule SendOTP_cooldown_changes_nothing)
  show "FindByPhone (lookup_fault (ex_send_env Minute None)) ex_coll
          (OTPRequest.PhoneNumber ex_request) = Inr ex_record"
    by (simp add: FindByPhone_def ex_send_env_def ex_coll_def ex_request_def)
  show "OTP.ExpiresAt ex_record - until_now (ex_send_env Minute None) > 2 * Minute"
    by (simp add: ex_record_def ex_send_env_def Minute_def)
qed

text \<open>
  C5, as stated, fails. \<open>SendOTP\<close> drops the error of the \<open>DeleteByPhone\<close> that rolls the
  record back: when the dispatch fails and that delete fails too (the two calls share one
  request context), the transport failure is returned and the record just created stays
  in the collection, where the undelivered code is then verified.
\<close>

theorem failed_rollback_leaves_a_valid_code:
  "SendOTP ((ex_send_env 0 (Some (OtherError ''context deadline exceeded'')))
              \<lparr>rollback_fault := Some (OtherError ''context deadline exceeded'')\<rparr>)
     Map.empty ex_request =
     (Inl (NewServiceUnavailableError ''SMS provider''), ex_coll, [(ex_phone, ''123456'')]) \<and>
   ex_coll ex_phone = Some ex_record \<and>
   VerifyOTP (ex_verify_env Minute) ex_coll ex_right =
     (Inr verifiedResponse, ex_coll(ex_phone := None))"
proof -
  have "VerifyOTP (ex_verify_env Minute) ex_coll ex_right =
          (Inr verifiedResponse, ex_coll(ex_phone := None))"
    by (subst VerifyOTP_match [where r = ex_record])
      (simp_all add: ex_verify_env_def ex_coll_def ex_right_def ex_record_def Minute_def)
  moreover have "ex_coll ex_phone = Some ex_record"
    by (simp add: ex_coll_def)
  ultimately show ?thesis
    using ex_failed_rollback by simp
qed

text \<open>
  C5, amended. \<open>SendOTP\<close> returns the transport failure exactly when the SMS client was
  called and failed. \<open>DeleteByPhone\<close> is then called for the phone before the failure is
  returned, and its error is discarded: when that delete succeeds no record is left for
  the phone; when it fails the failure is returned all the same and the record just
  created stays in the collection.
\<close>

theorem dispatch_failure_rolls_back:
  assumes "SendOTP env coll req = (res, coll', sent)"
  shows "(res = Inl (NewServiceUnavailableError ''SMS provider'') \<longleftrightarrow>
            sent \<noteq> [] \<and> dispatch_err env \<noteq> None) \<and>
         (res = Inl (NewServiceUnavailableError ''SMS provider'') \<and> rollback_fault env = None \<longrightarrow>
            coll' (OTPRequest.PhoneNumber req) = None) \<and>
         (res = Inl (NewServiceUnavailableError ''SMS provider'') \<and> rollback_fault env \<noteq> None \<longrightarrow>
            (\<exists>otp. sent = [(OTPRequest.PhoneNumber req, otp)] \<and>
                   coll' (OTPRequest.PhoneNumber req) =
                     Some \<lparr>Phone = OTPRequest.PhoneNumber req, OTP.Code = otp,
                           OTP.ExpiresAt = expiry_now env + 5 * Minute, Attempts = 0,
                           MaxAttempts = 3, CreatedAt = created_now env,
                           UpdatedAt = updated_now env\<rparr>))"
proof (cases "\<exists>r. FindByPhone (lookup_fault env) coll (OTPRequest.PhoneNumber req) = Inr r \<and>
                   OTP.ExpiresAt r - until_now env > 2 * Minute")
  case True
  then obtain r where "FindByPhone (lookup_fault env) coll (OTPRequest.PhoneNumber req) = Inr r"
    "OTP.ExpiresAt r - until_now env > 2 * Minute" by blast
  from SendOTP_cooldown [OF this] assms show ?thesis
    by auto
next
  case False
  from SendOTP_no_cooldown [OF False] assms obtain coll1
    where issue: "SendOTP_issue env coll1 (OTPRequest.PhoneNumber req) = (res, coll', sent)"
    by auto
  show ?thesis
  proof (cases res)
    case (Inr resp)
    with SendOTP_issue_Inr [of env coll1 "OTPRequest.PhoneNumber req" resp coll' sent] issue
    show ?thesis by auto
  next
    case (Inl appErr)
    show ?thesis
    proof (cases "appErr = NewServiceUnavailableError ''SMS provider''")
      case True
      with Inl issue
      have "SendOTP_issue env coll1 (OTPRequest.PhoneNumber req) =
              (Inl (NewServiceUnavailableError ''SMS provider''), coll', sent)"
        by simp
      from SendOTP_issue_unavailable [OF this] Inl True show ?thesis
        by auto
    next
      case False
      with Inl SendOTP_issue_Inl [of env coll1 "OTPRequest.PhoneNumber req" appErr coll' sent] issue
      show ?thesis
        by auto
    qed
  qed
qed

theorem dispatch_failure_rolls_back_witness:
  "SendOTP (ex_send_env 0 (Some (OtherError ''context deadline exceeded''))) Map.empty ex_request =
     (Inl (NewServiceUnavailableError ''SMS provider''), Map.empty, [(ex_phone, ''123456'')]) \<and>
   (Map.empty :: otps) (OTPRequest.PhoneNumber ex_request) = None"
  using dispatch_failure_rolls_back [OF ex_dispatch_failure] ex_dispatch_failure
  by simp

text \<open>
  C9, as stated, fails for \<open>SendOTP\<close> itself: the response of a completed issuance
  carries the generated code in its \<open>OTP\<close> field, the code handed to the SMS client
  (\<open>TestSendOTP\<close> of the repository reads it there).
\<close>

theorem SendOTP_returns_the_code:
  "fst (SendOTP (ex_send_env 0 None) Map.empty ex_request) =
     Inr \<lparr>OTPResponse.Success = True, OTPResponse.Message = ''OTP sent successfully'',
          OTPResponse.OTP = ''123456'', OTPResponse.ExpiresAt = 5 * Minute\<rparr> \<and>
   snd (snd (SendOTP (ex_send_env 0 None) Map.empty ex_request)) = [(ex_phone, ''123456'')]"
  by (simp add: ex_issue)

text \<open>
  C9, amended. The handler of the send-otp endpoint blanks the \<open>OTP\<close> field of a
  successful response before it writes it: every response body the endpoint writes for
  the service's \<open>SendOTP\<close> has an empty \<open>OTP\<close> field, and the body of a completed issuance
  is the service's response with the code removed, the expiry kept. \<open>SendOTP\<close> itself
  returns the code to its caller.
\<close>

theorem endpoint_blanks_the_code:
  assumes "makeSendOTPEndpoint (Some (SendOTP env)) bound coll =
             ((status, OTPResponseBody resp), coll', sent)"
  shows "OTPResponse.OTP resp = [] \<and>
         (OTPResponse.Success resp \<longrightarrow>
            OTPResponse.ExpiresAt resp = expiry_now env + 5 * Minute \<and>
            (\<exists>req otp. bound = Inr req \<and> sent = [(OTPRequest.PhoneNumber req, otp)] \<and>
                       fst (SendOTP env coll req) = Inr (resp\<lparr>OTPResponse.OTP := otp\<rparr>)))"
proof -
  from assms obtain req response
    where req: "bound = Inr req"
      and call: "SendOTP env coll req = (Inr response, coll', sent)"
      and resp: "resp = (if OTPResponse.Success response
                         then response\<lparr>OTPResponse.OTP := []\<rparr> else response)"
    by (auto simp: makeSendOTPEndpoint_def split: sum.splits if_splits option.splits prod.splits)
  from SendOTP_Inr_cases [OF call] show ?thesis
  proof
    assume "\<exists>r. FindByPhone (lookup_fault env) coll (OTPRequest.PhoneNumber req) = Inr r \<and>
              OTP.ExpiresAt r - until_now env > 2 * Minute \<and>
              response = \<lparr>OTPResponse.Success = False,
                      OTPResponse.Message =
                        ''OTP already sent. Please wait before requesting a new one.'',
                      OTPResponse.OTP = [], OTPResponse.ExpiresAt = OTP.ExpiresAt r\<rparr> \<and>
              coll' = coll \<and> sent = []"
    with resp show ?thesis by auto
  next
    assume "\<not> (\<exists>r. FindByPhone (lookup_fault env) coll (OTPRequest.PhoneNumber req) = Inr r \<and>
                  OTP.ExpiresAt r - until_now env > 2 * Minute) \<and>
          (\<exists>otp. generateOTP (reader env) = Inr otp \<and>
                 response = \<lparr>OTPResponse.Success = True,
                         OTPResponse.Message = ''OTP sent successfully'',
                         OTPResponse.OTP = otp,
                         OTPResponse.ExpiresAt = expiry_now env + 5 * Minute\<rparr> \<and>
                 sent = [(OTPRequest.PhoneNumber req, otp)])"
    then obtain otp where "response = \<lparr>OTPResponse.Success = True,
                         OTPResponse.Message = ''OTP sent successfully'',
                         OTPResponse.OTP = otp,
                         OTPResponse.ExpiresAt = expiry_now env + 5 * Minute\<rparr>"
      "sent = [(OTPRequest.PhoneNumber req, otp)]" by blast
    with resp req call show ?thesis by auto
  qed
qed

theorem endpoint_blanks_the_code_witness:
  "makeSendOTPEndpoint (Some (SendOTP (ex_send_env 0 None))) (Inr ex_request) Map.empty =
     ((200, OTPResponseBody
              \<lparr>OTPResponse.Success = True, OTPResponse.Message = ''OTP sent successfully'',
               OTPResponse.OTP = [], OTPResponse.ExpiresAt = 5 * Minute\<rparr>),
      [ex_phone \<mapsto> \<lparr>Phone = ex_phone, OTP.Code = ''123456'', OTP.ExpiresAt = 5 * Minute,
                     Attempts = 0, MaxAttempts = 3, CreatedAt = 0, UpdatedAt = 0\<rparr>],
      [(ex_phone, ''123456'')]) \<and>
   OTPResponse.OTP \<lparr>OTPResponse.Success = True, OTPResponse.Message = ''OTP sent successfully'',
               OTPResponse.OTP = [], OTPResponse.ExpiresAt = 5 * Minute\<rparr> = []"
proof -
  have run: "makeSendOTPEndpoint (Some (SendOTP (ex_send_env 0 None))) (Inr ex_request) Map.empty =
     ((200, OTPResponseBody
              \<lparr>OTPResponse.Success = True, OTPResponse.Message = ''OTP sent successfully'',
               OTPResponse.OTP = [], OTPResponse.ExpiresAt = 5 * Minute\<rparr>),
      [ex_phone \<mapsto> \<lparr>Phone = ex_phone, OTP.Code = ''123456'', OTP.ExpiresAt = 5 * Minute,
                     Attempts = 0, MaxAttempts = 3, CreatedAt = 0, UpdatedAt = 0\<rparr>],
      [(ex_phone, ''123456'')])"
  proof -
    have "OTPRequest.PhoneNumber ex_request = ex_phone"
      by (simp add: ex_request_def)
    then show ?thesis
      by (simp add: makeSendOTPEndpoint_def ex_issue ex_phone_valid)
  qed
  from endpoint_blanks_the_code [OF run] run show ?thesis
    by blast
qed

text \<open>
  C10. On the cooldown path \<open>SendOTP\<close> returns a nil error with a response whose
  \<open>Success\<close> is false, the "already sent" message and the existing expiry. Among the
  calls that return a nil error, \<open>Success\<close> is true exactly when the issuance was
  completed (the SMS client was called) and false exactly on the cooldown path; every
  failure is a non-nil error without a response. So the \<open>Success\<close> flag alone does not
  tell "already sent" from a failed issuance: the message or the expiry does.
\<close>

theorem cooldown_is_nil_error_with_Success_false:
  "(FindByPhone (lookup_fault env) coll (OTPRequest.PhoneNumber req) = Inr r \<and>
    OTP.ExpiresAt r - until_now env > 2 * Minute \<longrightarrow>
      (\<exists>resp. fst (SendOTP env coll req) = Inr resp \<and> \<not> OTPResponse.Success resp \<and>
              OTPResponse.Message resp =
                ''OTP already sent. Please wait before requesting a new one.'' \<and>
              OTPResponse.ExpiresAt resp = OTP.ExpiresAt r)) \<and>
   (fst (SendOTP env coll req) = Inr resp \<longrightarrow>
      (OTPResponse.Success resp \<longleftrightarrow> snd (snd (SendOTP env coll req)) \<noteq> []) \<and>
      (\<not> OTPResponse.Success resp \<longleftrightarrow>
         (\<exists>r. FindByPhone (lookup_fault env) coll (OTPRequest.PhoneNumber req) = Inr r \<and>
              OTP.ExpiresAt r - until_now env > 2 * Minute)))"
proof -
  have first: "\<exists>resp. fst (SendOTP env coll req) = Inr resp \<and> \<not> OTPResponse.Success resp \<and>
              OTPResponse.Message resp =
                ''OTP already sent. Please wait before requesting a new one.'' \<and>
              OTPResponse.ExpiresAt resp = OTP.ExpiresAt r"
    if "FindByPhone (lookup_fault env) coll (OTPRequest.PhoneNumber req) = Inr r"
      "OTP.ExpiresAt r - until_now env > 2 * Minute"
    using SendOTP_cooldown [OF that] by simp
  have second: "(OTPResponse.Success resp \<longleftrightarrow> snd (snd (SendOTP env coll req)) \<noteq> []) \<and>
      (\<not> OTPResponse.Success resp \<longleftrightarrow>
         (\<exists>r. FindByPhone (lookup_fault env) coll (OTPRequest.PhoneNumber req) = Inr r \<and>
              OTP.ExpiresAt r - until_now env > 2 * Minute))"
    if res: "fst (SendOTP env coll req) = Inr resp"
  proof -
    obtain coll' sent where "SendOTP env coll req = (Inr resp, coll', sent)"
      using res by (cases "SendOTP env coll req") auto
    from SendOTP_Inr_cases [OF this] this show ?thesis
      by auto
  qed
  from first second show ?thesis by blast
qed

theorem cooldown_is_nil_error_with_Success_false_witness:
  "(\<exists>resp. fst (SendOTP (ex_send_env Minute None) ex_coll ex_request) = Inr resp \<and>
           \<not> OTPResponse.Success resp) \<and>
   (\<exists>resp. fst (SendOTP (ex_send_env 0 None) Map.empty ex_request) = Inr resp \<and>
           OTPResponse.Success resp)"
proof -
  have a: "FindByPhone (lookup_fault (ex_send_env Minute None)) ex_coll
          (OTPRequest.PhoneNumber ex_request) = Inr ex_record"
    by (simp add: FindByPhone_def ex_send_env_def ex_coll_def ex_request_def)
  have b: "OTP.ExpiresAt ex_record - until_now (ex_send_env Minute None) > 2 * Minute"
    by (simp add: ex_record_def ex_send_env_def Minute_def)
  let ?resp = "\<lparr>OTPResponse.Success = True, OTPResponse.Message = ''OTP sent successfully'',
           OTPResponse.OTP = ''123456'', OTPResponse.ExpiresAt = 5 * Minute\<rparr>"
  have c: "fst (SendOTP (ex_send_env 0 None) Map.empty ex_request) = Inr ?resp"
    "snd (snd (SendOTP (ex_send_env 0 None) Map.empty ex_request)) \<noteq> []"
    by (simp_all add: ex_issue)
  from a b c
    cooldown_is_nil_error_with_Success_false
      [of "ex_send_env Minute None" ex_coll ex_request ex_record ?resp]
    cooldown_is_nil_error_with_Success_false
      [of "ex_send_env 0 None" Map.empty ex_request ex_record ?resp]
  show ?thesis by blast
qed

section \<open>RateLimitMiddleware: one request\<close>

lemma RateLimit_no_phone:
  "throttle_phone c = [] \<Longrightarrow> RateLimitMiddleware requests now c = (Next, requests)"
  by (simp add: RateLimitMiddleware_def)

lemma RateLimit_first:
  "throttle_phone c \<noteq> [] \<Longrightarrow> requests (throttle_phone c) = None \<Longrightarrow>
   RateLimitMiddleware requests now c = (Next, requests(throttle_phone c \<mapsto> [now]))"
  by (simp add: RateLimitMiddleware_def)

lemma RateLimit_reject:
  "throttle_phone c \<noteq> [] \<Longrightarrow> requests (throttle_phone c) = Some tss \<Longrightarrow>
   5 \<le> length (filter (\<lambda>ts. now - 60 < ts) tss) \<Longrightarrow>
   RateLimitMiddleware requests now c =
     (Abort 429 ErrCodeRateLimit, requests(throttle_phone c \<mapsto> filter (\<lambda>ts. now - 60 < ts) tss))"
  by (simp add: RateLimitMiddleware_def Let_def)

lemma RateLimit_admit:
  "throttle_phone c \<noteq> [] \<Longrightarrow> requests (throttle_phone c) = Some tss \<Longrightarrow>
   length (filter (\<lambda>ts. now - 60 < ts) tss) < 5 \<Longrightarrow>
   RateLimitMiddleware requests now c =
     (Next, requests(throttle_phone c \<mapsto> filter (\<lambda>ts. now - 60 < ts) tss @ [now]))"
  by (simp add: RateLimitMiddleware_def Let_def)

lemma RateLimit_other_phone:
  "throttle_phone c \<noteq> p \<Longrightarrow> snd (RateLimitMiddleware requests now c) p = requests p"
  by (simp add: RateLimitMiddleware_def Let_def split: option.splits)

lemma length_filter_mono:
  "(\<And>x. x \<in> set xs \<Longrightarrow> P x \<Longrightarrow> Q x) \<Longrightarrow> length (filter P xs) \<le> length (filter Q xs)"
  by (induction xs) auto

lemma filter_after_filter:
  fixes w v :: int
  shows "v \<le> w \<Longrightarrow> filter (\<lambda>ts. w < ts) (filter (\<lambda>ts. v < ts) xs) = filter (\<lambda>ts. w < ts) xs"
  by (induction xs) auto

section \<open>RateLimitMiddleware: runs\<close>

text \<open>
  One step of a run, for a fixed phone \<open>p\<close>. \<open>A\<close> is the list of the arrival times let
  through so far, \<open>T\<close> a time no later than the present request. What the map holds for
  \<open>p\<close> agrees with \<open>A\<close> on every timestamp younger than \<open>T - 60\<close>; no window of 60
  seconds holds more than 5 entries of \<open>A\<close>; no entry of \<open>A\<close> is later than \<open>T\<close>. The step
  keeps all three, with the arrival time of the request for \<open>T\<close>.
\<close>

lemma throttle_step:
  fixes A new :: "int list"
  assumes p: "p \<noteq> []" and T: "T \<le> now"
    and new: "new = (if throttle_phone c = p \<and> fst (RateLimitMiddleware requests now c) = Next
                     then [now] else [])"
    and agree: "case requests p of
                  None \<Rightarrow> A = []
                | Some S \<Rightarrow> \<forall>w. T - 60 \<le> w \<longrightarrow>
                    filter (\<lambda>ts. w < ts) S = filter (\<lambda>ts. w < ts) A"
    and bounded: "\<forall>t. length (filter (\<lambda>ts. t - 60 < ts \<and> ts \<le> t) A) \<le> 5"
    and past: "\<forall>ts \<in> set A. ts \<le> T"
  shows "(case snd (RateLimitMiddleware requests now c) p of
            None \<Rightarrow> A @ new = []
          | Some S \<Rightarrow> \<forall>w. now - 60 \<le> w \<longrightarrow>
              filter (\<lambda>ts. w < ts) S = filter (\<lambda>ts. w < ts) (A @ new)) \<and>
         (\<forall>t. length (filter (\<lambda>ts. t - 60 < ts \<and> ts \<le> t) (A @ new)) \<le> 5) \<and>
         (\<forall>ts \<in> set (A @ new). ts \<le> now)"
proof (cases "throttle_phone c = p")
  case False
  with new have "new = []" by simp
  moreover from False have "snd (RateLimitMiddleware requests now c) p = requests p"
    by (rule RateLimit_other_phone)
  moreover from agree T
  have "case requests p of
          None \<Rightarrow> A = []
        | Some S \<Rightarrow> \<forall>w. now - 60 \<le> w \<longrightarrow>
            filter (\<lambda>ts. w < ts) S = filter (\<lambda>ts. w < ts) A"
    by (auto split: option.splits)
  moreover from past T have "\<forall>ts \<in> set A. ts \<le> now" by auto
  ultimately show ?thesis using bounded by (auto split: option.splits)
next
  case same: True
  with p have key: "throttle_phone c \<noteq> []" by simp
  show ?thesis
  proof (cases "requests p")
    case None
    with agree have A: "A = []" by simp
    from None same have "requests (throttle_phone c) = None" by simp
    from RateLimit_first [where c = c and requests = requests and now = now, OF key this] same
    have step: "RateLimitMiddleware requests now c = (Next, requests(p \<mapsto> [now]))" by simp
    with new same have "new = [now]" by simp
    with A step show ?thesis by simp
  next
    case (Some S)
    let ?valid = "filter (\<lambda>ts. now - 60 < ts) S"
    from agree Some T have valid: "?valid = filter (\<lambda>ts. now - 60 < ts) A"
      by simp
    from Some same have stored: "requests (throttle_phone c) = Some S" by simp
    from past T have past': "\<forall>ts \<in> set A. ts \<le> now" by auto
    show ?thesis
    proof (cases "5 \<le> length ?valid")
      case True
      from RateLimit_reject [where c = c and requests = requests and now = now and tss = S,
          OF key stored True] same
      have step: "RateLimitMiddleware requests now c =
                    (Abort 429 ErrCodeRateLimit, requests(p \<mapsto> ?valid))" by simp
      with new have "new = []" by simp
      moreover have "\<forall>w. now - 60 \<le> w \<longrightarrow>
          filter (\<lambda>ts. w < ts) ?valid = filter (\<lambda>ts. w < ts) A"
        unfolding valid by (intro allI impI) (rule filter_after_filter)
      ultimately show ?thesis using step bounded past' by simp
    next
      case False
      then have few: "length ?valid < 5" by simp
      from RateLimit_admit [where c = c and requests = requests and now = now and tss = S,
          OF key stored few] same
      have step: "RateLimitMiddleware requests now c = (Next, requests(p \<mapsto> ?valid @ [now]))"
        by simp
      with new same have new': "new = [now]" by simp
      have "\<forall>w. now - 60 \<le> w \<longrightarrow>
          filter (\<lambda>ts. w < ts) ?valid = filter (\<lambda>ts. w < ts) A"
        unfolding valid by (intro allI impI) (rule filter_after_filter)
      then have agree': "\<forall>w. now - 60 \<le> w \<longrightarrow>
          filter (\<lambda>ts. w < ts) (?valid @ [now]) = filter (\<lambda>ts. w < ts) (A @ [now])"
        by (simp only: filter_append) simp
      have bounded': "length (filter (\<lambda>ts. t - 60 < ts \<and> ts \<le> t) (A @ [now])) \<le> 5" for t
      proof (cases "t - 60 < now \<and> now \<le> t")
        case False
        with bounded show ?thesis by auto
      next
        case True
        have "length (filter (\<lambda>ts. t - 60 < ts \<and> ts \<le> t) A)
                \<le> length (filter (\<lambda>ts. now - 60 < ts) A)"
          by (rule length_filter_mono) (use True in auto)
        with few valid have "length (filter (\<lambda>ts. t - 60 < ts \<and> ts \<le> t) A) < 5"
          by simp
        then show ?thesis by simp
      qed
      from step new' agree' bounded' past' show ?thesis by simp
    qed
  qed
qed

lemma admitted_bounded:
  fixes A :: "int list"
  assumes p: "p \<noteq> []"
  shows "sorted (map fst calls) \<Longrightarrow> \<forall>call \<in> set calls. T \<le> fst call \<Longrightarrow>
         (case requests p of
            None \<Rightarrow> A = []
          | Some S \<Rightarrow> \<forall>w. T - 60 \<le> w \<longrightarrow>
              filter (\<lambda>ts. w < ts) S = filter (\<lambda>ts. w < ts) A) \<Longrightarrow>
         \<forall>t. length (filter (\<lambda>ts. t - 60 < ts \<and> ts \<le> t) A) \<le> 5 \<Longrightarrow>
         \<forall>ts \<in> set A. ts \<le> T \<Longrightarrow>
         length (filter (\<lambda>ts. t - 60 < ts \<and> ts \<le> t) (A @ admitted p requests calls)) \<le> 5"
proof (induction calls arbitrary: requests A T)
  case Nil
  then show ?case by simp
next
  case (Cons call rest)
  obtain now c where call: "call = (now, c)" by (cases call)
  let ?new = "if throttle_phone c = p \<and> fst (RateLimitMiddleware requests now c) = Next
              then [now] else []"
  let ?requests' = "snd (RateLimitMiddleware requests now c)"
  from Cons.prems(2) call have T: "T \<le> now" by simp
  from throttle_step [where p = p and T = T and now = now and c = c and requests = requests
      and A = A and new = ?new, OF p T refl Cons.prems(3) Cons.prems(4) Cons.prems(5)]
  have inv: "case ?requests' p of
               None \<Rightarrow> A @ ?new = []
             | Some S \<Rightarrow> \<forall>w. now - 60 \<le> w \<longrightarrow>
                 filter (\<lambda>ts. w < ts) S = filter (\<lambda>ts. w < ts) (A @ ?new)"
    "\<forall>t. length (filter (\<lambda>ts. t - 60 < ts \<and> ts \<le> t) (A @ ?new)) \<le> 5"
    "\<forall>ts \<in> set (A @ ?new). ts \<le> now"
    by blast+
  from Cons.prems(1) call have later: "sorted (map fst rest)" "\<forall>call \<in> set rest. now \<le> fst call"
    by auto
  from Cons.IH [where T = now and requests = ?requests' and A = "A @ ?new", OF later inv]
  have "length (filter (\<lambda>ts. t - 60 < ts \<and> ts \<le> t) ((A @ ?new) @ admitted p ?requests' rest)) \<le> 5" .
  moreover have "A @ admitted p requests (call # rest) = (A @ ?new) @ admitted p ?requests' rest"
    by (simp add: call)
  ultimately show ?case by simp
qed

lemma admitted_window_from_empty:
  assumes p: "p \<noteq> []" and sorted: "sorted (map fst calls)"
  shows "length (filter (\<lambda>ts. t - 60 < ts \<and> ts \<le> t) (admitted p Map.empty calls)) \<le> 5"
proof (cases calls)
  case Nil
  then show ?thesis by simp
next
  case (Cons call rest)
  with sorted have first: "\<forall>x \<in> set calls. fst call \<le> fst x"
    by auto
  have start: "case Map.empty p of
                 None \<Rightarrow> ([] :: int list) = []
               | Some S \<Rightarrow> \<forall>w. fst call - 60 \<le> w \<longrightarrow>
                   filter (\<lambda>ts. w < ts) S = filter (\<lambda>ts. w < ts) []"
    by simp
  have "length (filter (\<lambda>ts. t - 60 < ts \<and> ts \<le> t) ([] @ admitted p Map.empty calls)) \<le> 5"
    by (rule admitted_bounded [where T = "fst call" and A = "[]" and requests = Map.empty,
          OF p sorted first start]) simp_all
  then show ?thesis by simp
qed

lemma six_requests:
  assumes p: "p \<noteq> []"
    and phones: "throttle_phone c1 = p" "throttle_phone c2 = p" "throttle_phone c3 = p"
      "throttle_phone c4 = p" "throttle_phone c5 = p" "throttle_phone c6 = p"
    and times: "t1 \<le> t2" "t2 \<le> t3" "t3 \<le> t4" "t4 \<le> t5" "t5 \<le> t6" "t6 - t1 \<le> 10"
  shows "throttle_run Map.empty [(t1, c1), (t2, c2), (t3, c3), (t4, c4), (t5, c5), (t6, c6)] =
           [Next, Next, Next, Next, Next, Abort 429 ErrCodeRateLimit]"
proof -
  have r1: "RateLimitMiddleware Map.empty t1 c1 = (Next, [p \<mapsto> [t1]])"
    using p phones by (subst RateLimit_first) simp_all
  have r2: "RateLimitMiddleware [p \<mapsto> [t1]] t2 c2 = (Next, [p \<mapsto> [t1, t2]])"
    using p phones times
    by (subst RateLimit_admit [where tss = "[t1]"]) simp_all
  have r3: "RateLimitMiddleware [p \<mapsto> [t1, t2]] t3 c3 = (Next, [p \<mapsto> [t1, t2, t3]])"
    using p phones times
    by (subst RateLimit_admit [where tss = "[t1, t2]"]) simp_all
  have r4: "RateLimitMiddleware [p \<mapsto> [t1, t2, t3]] t4 c4 = (Next, [p \<mapsto> [t1, t2, t3, t4]])"
    using p phones times
    by (subst RateLimit_admit [where tss = "[t1, t2, t3]"]) simp_all
  have r5: "RateLimitMiddleware [p \<mapsto> [t1, t2, t3, t4]] t5 c5 =
              (Next, [p \<mapsto> [t1, t2, t3, t4, t5]])"
    using p phones times
    by (subst RateLimit_admit [where tss = "[t1, t2, t3, t4]"]) simp_all
  have r6: "RateLimitMiddleware [p \<mapsto> [t1, t2, t3, t4, t5]] t6 c6 =
              (Abort 429 ErrCodeRateLimit, [p \<mapsto> [t1, t2, t3, t4, t5]])"
    using p phones times
    by (subst RateLimit_reject [where tss = "[t1, t2, t3, t4, t5]"]) simp_all
  show ?thesis
    by (simp add: r1 r2 r3 r4 r5 r6)
qed

lemma ex_post_phone: "throttle_phone ex_post = ex_phone" "ex_phone \<noteq> []"
  by (simp_all add: throttle_phone_def ex_post_def ex_phone_def)

section \<open>The claim about the request throttle\<close>

text \<open>
  C7. The throttle lets through at most 5 requests per phone in any trailing window of 60
  seconds. (i) A request that arrives when 5 or more timestamps younger than 60 seconds
  are recorded for its phone is aborted with status 429 and the rate-limit code, and is
  not recorded: the map keeps the pruned list for the phone, without the new arrival.
  (ii) In every run of the middleware from its empty map, over requests in order of
  arrival (the clock does not step back), for each phone and each instant \<open>t\<close> at most 5
  of the requests let through arrived in \<open>(t - 60, t]\<close>. (iii) Of six requests for one
  phone within 10 seconds, from the empty map, five pass and the sixth is aborted.
\<close>

theorem throttle_five_per_minute:
  "(throttle_phone c \<noteq> [] \<and> requests (throttle_phone c) = Some tss \<and>
    5 \<le> length (filter (\<lambda>ts. now - 60 < ts) tss) \<longrightarrow>
      RateLimitMiddleware requests now c =
        (Abort 429 ErrCodeRateLimit,
         requests(throttle_phone c \<mapsto> filter (\<lambda>ts. now - 60 < ts) tss))) \<and>
   (p \<noteq> [] \<and> sorted (map fst calls) \<longrightarrow>
      length (filter (\<lambda>ts. t - 60 < ts \<and> ts \<le> t) (admitted p Map.empty calls)) \<le> 5) \<and>
   (p \<noteq> [] \<and> (\<forall>x \<in> {c1, c2, c3, c4, c5, c6}. throttle_phone x = p) \<and>
    t1 \<le> t2 \<and> t2 \<le> t3 \<and> t3 \<le> t4 \<and> t4 \<le> t5 \<and> t5 \<le> t6 \<and> t6 - t1 \<le> 10 \<longrightarrow>
      throttle_run Map.empty [(t1, c1), (t2, c2), (t3, c3), (t4, c4), (t5, c5), (t6, c6)] =
        [Next, Next, Next, Next, Next, Abort 429 ErrCodeRateLimit])"
proof (intro conjI impI)
  assume "throttle_phone c \<noteq> [] \<and> requests (throttle_phone c) = Some tss \<and>
    5 \<le> length (filter (\<lambda>ts. now - 60 < ts) tss)"
  then show "RateLimitMiddleware requests now c =
        (Abort 429 ErrCodeRateLimit,
         requests(throttle_phone c \<mapsto> filter (\<lambda>ts. now - 60 < ts) tss))"
    using RateLimit_reject [where c = c and requests = requests and tss = tss and now = now]
    by blast
next
  assume "p \<noteq> [] \<and> sorted (map fst calls)"
  then show "length (filter (\<lambda>ts. t - 60 < ts \<and> ts \<le> t) (admitted p Map.empty calls)) \<le> 5"
    using admitted_window_from_empty [of p calls t] by blast
next
  assume a: "p \<noteq> [] \<and> (\<forall>x \<in> {c1, c2, c3, c4, c5, c6}. throttle_phone x = p) \<and>
    t1 \<le> t2 \<and> t2 \<le> t3 \<and> t3 \<le> t4 \<and> t4 \<le> t5 \<and> t5 \<le> t6 \<and> t6 - t1 \<le> 10"
  show "throttle_run Map.empty [(t1, c1), (t2, c2), (t3, c3), (t4, c4), (t5, c5), (t6, c6)] =
        [Next, Next, Next, Next, Next, Abort 429 ErrCodeRateLimit]"
    by (rule six_requests [where p = p]) (use a in simp_all)
qed

theorem throttle_five_per_minute_witness:
  "RateLimitMiddleware [ex_phone \<mapsto> [0, 1, 2, 3, 4]] 5 ex_post =
     (Abort 429 ErrCodeRateLimit,
      [ex_phone \<mapsto> [0, 1, 2, 3, 4]](throttle_phone ex_post \<mapsto>
         filter (\<lambda>ts. 5 - 60 < ts) [0, 1, 2, 3, 4])) \<and>
   length (filter (\<lambda>ts. 59 - 60 < ts \<and> ts \<le> 59)
     (admitted ex_phone Map.empty
        [(0, ex_post), (1, ex_post), (2, ex_post), (3, ex_post), (4, ex_post), (5, ex_post)])) \<le> 5 \<and>
   throttle_run Map.empty
     [(0, ex_post), (1, ex_post), (2, ex_post), (3, ex_post), (4, ex_post), (5, ex_post)] =
     [Next, Next, Next, Next, Next, Abort 429 ErrCodeRateLimit]"
proof -
  have a: "throttle_phone ex_post \<noteq> [] \<and>
           [ex_phone \<mapsto> [0, 1, 2, 3, 4 :: int]] (throttle_phone ex_post) = Some [0, 1, 2, 3, 4] \<and>
           5 \<le> length (filter (\<lambda>ts. 5 - 60 < ts) [0, 1, 2, 3, 4 :: int])"
    by (simp add: ex_post_phone)
  have b: "ex_phone \<noteq> [] \<and>
           sorted (map fst [(0 :: int, ex_post), (1, ex_post), (2, ex_post), (3, ex_post),
                            (4, ex_post), (5, ex_post)])"
    by (simp add: ex_post_phone)
  have c: "ex_phone \<noteq> [] \<and>
           (\<forall>x \<in> {ex_post, ex_post, ex_post, ex_post, ex_post, ex_post}. throttle_phone x = ex_phone) \<and>
           (0 :: int) \<le> 1 \<and> (1 :: int) \<le> 2 \<and> (2 :: int) \<le> 3 \<and> (3 :: int) \<le> 4 \<and>
           (4 :: int) \<le> 5 \<and> (5 :: int) - 0 \<le> 10"
    by (simp add: ex_post_phone)
  from a b c
    throttle_five_per_minute [where c = ex_post and requests = "[ex_phone \<mapsto> [0, 1, 2, 3, 4]]"
      and tss = "[0, 1, 2, 3, 4]" and now = 5 and p = ex_phone
      and calls = "[(0, ex_post), (1, ex_post), (2, ex_post), (3, ex_post), (4, ex_post), (5, ex_post)]"
      and t = 59 and ?c1.0 = ex_post and ?c2.0 = ex_post and ?c3.0 = ex_post and ?c4.0 = ex_post
      and ?c5.0 = ex_post and ?c6.0 = ex_post and ?t1.0 = 0 and ?t2.0 = 1 and ?t3.0 = 2
      and ?t4.0 = 3 and ?t5.0 = 4 and ?t6.0 = 5]
  show ?thesis by blast
qed

end
